theory Spec2Isabelle
  imports Complex_Main "HOL-Library.Sublist" "HOL-Library.Product_Lexorder" "HOL-Library.Log_Nat"
    "HOL-Library.Multiset"
begin

section \<open>JavaScript values\<close>

text \<open>
  A JavaScript \<^verbatim>\<open>number\<close> is an IEEE 754 double. The model keeps \<^verbatim>\<open>NaN\<close> and the two
  infinities and holds a finite double as the rational it denotes. The result of an
  arithmetic operation is the exact result rounded to the nearest double, a tie going to the
  even significand and an overflow to an infinity. Negative zero is identified with zero: the
  two differ only as a divisor and under \<^verbatim>\<open>Object.is\<close>, and this code divides by the length of
  an array that is not empty.
\<close>

datatype number = NaN | NegInf | Fin rat | PosInf

subsection \<open>Rounding to the nearest double\<close>

text \<open>The power \<open>2 ^ k\<close> for an integer \<open>k\<close>, by repeated squaring.\<close>

function pow2 :: "int \<Rightarrow> rat" where
  "pow2 k =
     (if k < 0 then 1 / pow2 (- k)
      else if k = 0 then 1
      else let h = pow2 (k div 2) in if even k then h * h else 2 * h * h)"
  by pat_completeness auto
termination
  by (relation "measure (\<lambda>k. 2 * nat \<bar>k\<bar> + (if k < 0 then 1 else 0))") auto

declare pow2.simps [simp del]

text \<open>
  The binary exponent of a positive rational \<open>a = p / q\<close>: the \<open>e\<close> with
  \<open>2 ^ e \<le> a < 2 ^ (e + 1)\<close>. It is the difference of the bit lengths of \<open>p\<close> and \<open>q\<close>, or one
  less.
\<close>

definition floor_log2 :: "rat \<Rightarrow> int" where
  "floor_log2 a =
     (let (p, q) = quotient_of a; e = bitlen p - bitlen q
      in if pow2 e \<le> a then e else e - 1)"

text \<open>The nearest integer, a tie going to the even one.\<close>

definition round_half_even :: "rat \<Rightarrow> int" where
  "round_half_even x =
     (let f = \<lfloor>x\<rfloor>; d = x - of_int f
      in if d < 1 / 2 then f else if 1 / 2 < d then f + 1 else if even f then f else f + 1)"

text \<open>
  The double nearest to a rational. A double is \<open>m * 2 ^ e\<close> with a significand \<open>m\<close> of at
  most 53 bits; the unit in the last place \<open>2 ^ e\<close> has \<open>e\<close> 52 below the binary exponent
  of the rational, and not below \<open>-1074\<close> (the subnormal numbers). The rounded value is
  \<open>2 ^ 1024\<close> or more, and the result an infinity, when \<open>e\<close> is above 971, or is 971 with
  the significand rounded up to \<open>2 ^ 53 = 9007199254740992\<close>.
\<close>

definition round_double :: "rat \<Rightarrow> number" where
  "round_double r =
     (if r = 0 then Fin 0
      else
        let a = \<bar>r\<bar>;
            e = max (floor_log2 a - 52) (- 1074);
            m = round_half_even (a / pow2 e);
            v = of_int m * pow2 e
        in if 971 < e \<or> (e = 971 \<and> 9007199254740992 \<le> m) then (if r < 0 then NegInf else PosInf)
           else Fin (if r < 0 then - v else v))"

text \<open>
  \<open>Fin r\<close> is a value of JavaScript when \<open>r\<close> is a double, that is when rounding leaves it
  unchanged.
\<close>

definition js_number :: "number \<Rightarrow> bool" where
  "js_number x = (case x of Fin r \<Rightarrow> round_double r = Fin r | _ \<Rightarrow> True)"

text \<open>
  Every double is a whole multiple of the least positive double \<open>2 ^ -1074\<close>, and so is
  the difference of two doubles.
\<close>

definition ulp_min :: rat where
  "ulp_min = pow2 (- 1074)"

definition on_grid :: "rat \<Rightarrow> bool" where
  "on_grid r = (\<exists>k :: int. r = of_int k * ulp_min)"

definition grid_number :: "number \<Rightarrow> bool" where
  "grid_number x = (case x of Fin r \<Rightarrow> on_grid r | _ \<Rightarrow> True)"

subsection \<open>Arithmetic\<close>

fun num_neg :: "number \<Rightarrow> number" where
  "num_neg NaN = NaN"
| "num_neg NegInf = PosInf"
| "num_neg (Fin r) = Fin (- r)"
| "num_neg PosInf = NegInf"

text \<open>\<^verbatim>\<open>a + b\<close> on numbers.\<close>

fun num_add :: "number \<Rightarrow> number \<Rightarrow> number" where
  "num_add NaN b = NaN"
| "num_add (Fin x) NaN = NaN"
| "num_add (Fin x) NegInf = NegInf"
| "num_add (Fin x) (Fin y) = round_double (x + y)"
| "num_add (Fin x) PosInf = PosInf"
| "num_add NegInf NaN = NaN"
| "num_add NegInf NegInf = NegInf"
| "num_add NegInf (Fin y) = NegInf"
| "num_add NegInf PosInf = NaN"
| "num_add PosInf NaN = NaN"
| "num_add PosInf NegInf = NaN"
| "num_add PosInf (Fin y) = PosInf"
| "num_add PosInf PosInf = PosInf"

text \<open>\<^verbatim>\<open>a - b\<close> on numbers: the sum of \<open>a\<close> and the negated \<open>b\<close>, rounded once.\<close>

definition num_sub :: "number \<Rightarrow> number \<Rightarrow> number" where
  "num_sub a b = num_add a (num_neg b)"

text \<open>The sign of a number other than \<^verbatim>\<open>NaN\<close>, as \<open>-1\<close>, \<open>0\<close> or \<open>1\<close>.\<close>

fun num_sgn :: "number \<Rightarrow> int" where
  "num_sgn NaN = 0"
| "num_sgn NegInf = - 1"
| "num_sgn (Fin r) = (if r < 0 then - 1 else if r = 0 then 0 else 1)"
| "num_sgn PosInf = 1"

text \<open>\<^verbatim>\<open>a * b\<close> on numbers: an infinity times zero is \<^verbatim>\<open>NaN\<close>.\<close>

fun num_mul :: "number \<Rightarrow> number \<Rightarrow> number" where
  "num_mul NaN b = NaN"
| "num_mul a NaN = NaN"
| "num_mul (Fin x) (Fin y) = round_double (x * y)"
| "num_mul a b =
     (let s = num_sgn a * num_sgn b
      in if s = 0 then NaN else if 0 < s then PosInf else NegInf)"

text \<open>\<^verbatim>\<open>a / b\<close> on numbers; zero is taken as positive zero.\<close>

fun num_div :: "number \<Rightarrow> number \<Rightarrow> number" where
  "num_div NaN b = NaN"
| "num_div a NaN = NaN"
| "num_div (Fin x) (Fin y) =
     (if y \<noteq> 0 then round_double (x / y)
      else if x = 0 then NaN else if 0 < x then PosInf else NegInf)"
| "num_div (Fin x) b = Fin 0"
| "num_div a (Fin y) = (if (num_sgn a < 0) = (y < 0) then PosInf else NegInf)"
| "num_div a b = NaN"

text \<open>\<^verbatim>\<open>a < b\<close> and \<^verbatim>\<open>a <= b\<close>: every comparison with \<^verbatim>\<open>NaN\<close> is false.\<close>

fun num_lt :: "number \<Rightarrow> number \<Rightarrow> bool" where
  "num_lt NaN b = False"
| "num_lt a NaN = False"
| "num_lt (Fin x) (Fin y) = (x < y)"
| "num_lt NegInf NegInf = False"
| "num_lt NegInf b = True"
| "num_lt a PosInf = (a \<noteq> PosInf)"
| "num_lt a b = False"

definition num_le :: "number \<Rightarrow> number \<Rightarrow> bool" where
  "num_le a b = (a \<noteq> NaN \<and> b \<noteq> NaN \<and> (a = b \<or> num_lt a b))"

text \<open>\<^verbatim>\<open>a > b\<close> and \<^verbatim>\<open>a >= b\<close>.\<close>

definition num_gt :: "number \<Rightarrow> number \<Rightarrow> bool" where
  "num_gt a b = num_lt b a"

definition num_ge :: "number \<Rightarrow> number \<Rightarrow> bool" where
  "num_ge a b = num_le b a"

text \<open>
  \<^verbatim>\<open>Array.prototype.sort(cmp)\<close>: a stable sort by the comparator's result, where a result
  of \<^verbatim>\<open>NaN\<close> counts as \<open>0\<close>. It is modelled as the stable insertion sort; with a consistent
  comparator every sorting algorithm returns this list. With a comparator that is not
  consistent, as \<^verbatim>\<open>(a, b) => a - b\<close> with a \<^verbatim>\<open>NaN\<close> among the numbers, the standard leaves
  the order to the implementation, and the insertion sort gives one such order; a list
  in which no element compares above its successor is left as it is by every implementation.
\<close>

definition cmp_le0 :: "number \<Rightarrow> bool" where
  "cmp_le0 v = (v = NaN \<or> num_le v (Fin 0))"

fun insort_by :: "('a \<Rightarrow> 'a \<Rightarrow> number) \<Rightarrow> 'a \<Rightarrow> 'a list \<Rightarrow> 'a list" where
  "insort_by cmp x [] = [x]"
| "insort_by cmp x (y # ys) =
     (if cmp_le0 (cmp x y) then x # y # ys else y # insort_by cmp x ys)"

definition array_sort :: "('a \<Rightarrow> 'a \<Rightarrow> number) \<Rightarrow> 'a list \<Rightarrow> 'a list" where
  "array_sort cmp xs = foldr (insort_by cmp) xs []"

text \<open>
  \<^verbatim>\<open>values[i]\<close> read as a number: an index out of range gives \<^verbatim>\<open>undefined\<close>, which
  arithmetic turns into \<^verbatim>\<open>NaN\<close>.
\<close>

definition array_get :: "number list \<Rightarrow> nat \<Rightarrow> number" where
  "array_get values i = (if i < length values then values ! i else NaN)"

text \<open>
  \<^verbatim>\<open>Math.floor\<close> of a non-negative finite number, as an array index. The two arguments it
  is given, \<^verbatim>\<open>n / 4\<close> and \<^verbatim>\<open>n * (3 / 4)\<close> for the length \<open>n\<close> of an array, are exact in doubles
  (\<open>n\<close> is below \<open>2 ^ 32\<close>), so they are not rounded.
\<close>

definition math_floor :: "rat \<Rightarrow> nat" where
  "math_floor r = nat \<lfloor>r\<rfloor>"

section \<open>Data model (types.ts)\<close>

text \<open>
  The interfaces of \<^verbatim>\<open>types.ts\<close>. \<^verbatim>\<open>FilterState\<close> is the key triple; the records that carry
  the same three fields extend it, so that \<open>partNumber\<close>, \<open>vendor\<close> and \<open>country\<close> are the
  same selectors everywhere. A string field is a \<open>string option\<close>: \<open>None\<close> is \<^verbatim>\<open>undefined\<close>,
  which the CSV decoders store when a column is absent, whatever the declared type says.
  The field \<^verbatim>\<open>id\<close> is named \<open>ident\<close>.
\<close>

record FilterState =
  partNumber :: "string option"
  vendor :: "string option"
  country :: "string option"

record HistoricalData = FilterState +
  ident :: string
  usdPrice :: number
  quantity :: number
  leadTimeDays :: number
  date :: string
  isOutlier :: "bool option"

section \<open>Outlier filter (dataService.ts, cleanseOutliers)\<close>

record cleanse_result =
  cleansed :: "HistoricalData list"
  outlierCount :: int

definition cleanseOutliers :: "HistoricalData list \<Rightarrow> cleanse_result" where
  "cleanseOutliers data =
     (if length data < 4 then \<lparr>cleansed = data, outlierCount = 0\<rparr>
      else
        let values = array_sort (\<lambda>a b. num_sub a b) (map usdPrice data);
            q1 = array_get values (math_floor (of_nat (length values) / 4));
            q3 = array_get values (math_floor (of_nat (length values) * (3 / 4)));
            iqr = num_sub q3 q1;
            minBound = num_sub q1 (num_mul (Fin (3 / 2)) iqr);
            maxBound = num_add q3 (num_mul (Fin (3 / 2)) iqr);
            cleansed = filter (\<lambda>d. num_ge (usdPrice d) minBound \<and> num_le (usdPrice d) maxBound) data
        in \<lparr>cleansed = cleansed, outlierCount = int (length data) - int (length cleansed)\<rparr>)"

subsection \<open>Reference IQR filter\<close>

text \<open>
  The filter as section 4.1 of the specification words it: the price series in ascending
  order, the quartiles at the indices \<open>n div 4\<close> and \<open>n * 3 div 4\<close>, the closed band
  \<open>[Q1 - 1.5 IQR, Q3 + 1.5 IQR]\<close> in the arithmetic of numbers. The ascending order is that
  of the numbers other than \<^verbatim>\<open>NaN\<close>: \<open>-Infinity\<close>, the finite numbers by value, \<open>Infinity\<close>.
  \<^verbatim>\<open>NaN\<close> is neither below nor above any number; the key puts it last.
\<close>

definition num_key :: "number \<Rightarrow> nat \<times> rat" where
  "num_key x = (case x of NegInf \<Rightarrow> (0, 0) | Fin r \<Rightarrow> (1, r) | PosInf \<Rightarrow> (2, 0) | NaN \<Rightarrow> (3, 0))"

definition ascending :: "number list \<Rightarrow> number list" where
  "ascending xs = sort_key num_key xs"

definition iqr_band :: "HistoricalData list \<Rightarrow> number \<times> number" where
  "iqr_band records =
     (let sorted = ascending (map usdPrice records);
          n = length sorted;
          Q1 = sorted ! (n div 4);
          Q3 = sorted ! (n * 3 div 4);
          IQR = num_sub Q3 Q1
      in (num_sub Q1 (num_mul (Fin (3 / 2)) IQR), num_add Q3 (num_mul (Fin (3 / 2)) IQR)))"

definition in_band :: "number \<times> number \<Rightarrow> HistoricalData \<Rightarrow> bool" where
  "in_band band r = (num_le (fst band) (usdPrice r) \<and> num_le (usdPrice r) (snd band))"

definition iqr_reference :: "HistoricalData list \<Rightarrow> HistoricalData list \<times> int" where
  "iqr_reference records =
     (if length records < 4 then (records, 0)
      else
        let kept = filter (in_band (iqr_band records)) records
        in (kept, int (length records) - int (length kept)))"

text \<open>
  Records whose prices are values of JavaScript, and records whose prices are moreover
  numbers, not \<^verbatim>\<open>NaN\<close>.
\<close>

definition js_prices :: "HistoricalData list \<Rightarrow> bool" where
  "js_prices records = list_all (\<lambda>d. js_number (usdPrice d)) records"

definition numeric_prices :: "HistoricalData list \<Rightarrow> bool" where
  "numeric_prices records = list_all (\<lambda>d. js_number (usdPrice d) \<and> usdPrice d \<noteq> NaN) records"

subsection \<open>Sample records\<close>

text \<open>A record with a given price, and one whose price is \<^verbatim>\<open>NaN\<close>, for the concrete instances below.\<close>

definition priced :: "rat \<Rightarrow> HistoricalData" where
  "priced p = \<lparr>partNumber = Some ''SKU-1001'', vendor = Some ''TechSupply Co'', country = Some ''USA'',
     ident = ''r'', usdPrice = Fin p, quantity = Fin 100, leadTimeDays = Fin 14,
     date = ''2024-01-01'', isOutlier = None\<rparr>"

definition unpriced :: HistoricalData where
  "unpriced = (priced 0)\<lparr>usdPrice := NaN\<rparr>"

text \<open>Two lists with the same prices, one of them \<^verbatim>\<open>NaN\<close>, in two orders.\<close>

definition nan_first :: "HistoricalData list" where
  "nan_first = [unpriced, priced 1, priced 2, priced 3]"

definition nan_second :: "HistoricalData list" where
  "nan_second = [priced 1, unpriced, priced 2, priced 3]"

text \<open>
  The double that a decimal literal denotes, and the records with the prices \<^verbatim>\<open>1\<close>, \<^verbatim>\<open>1.6\<close>,
  \<^verbatim>\<open>1.8\<close> and \<^verbatim>\<open>2\<close>, the two in the middle not being binary fractions.
\<close>

definition nearest :: "rat \<Rightarrow> rat" where
  "nearest r = (case round_double r of Fin v \<Rightarrow> v | _ \<Rightarrow> 0)"

definition rounded_band :: "HistoricalData list" where
  "rounded_band = map priced [1, nearest (16 / 10), nearest (18 / 10), 2]"

section \<open>Strings\<close>

text \<open>
  A string is a list of chars, each standing for a UTF-16 code unit below 256 (ASCII and
  Latin-1); text outside that range is not modelled.
\<close>

definition dquote :: char where
  "dquote = CHR 0x22"

definition newline :: char where
  "newline = CHR 0x0A"

definition comma :: char where
  "comma = CHR '',''"

text \<open>
  The white space and line terminators that \<^verbatim>\<open>String.prototype.trim\<close>, \<^verbatim>\<open>parseFloat\<close>
  and \<^verbatim>\<open>parseInt\<close> skip: tab, line feed, vertical tab, form feed, carriage return, space
  and no-break space.
\<close>

definition is_white :: "char \<Rightarrow> bool" where
  "is_white c = (c \<in> set [CHR 0x09, CHR 0x0A, CHR 0x0B, CHR 0x0C, CHR 0x0D, CHR 0x20, CHR 0xA0])"

definition trim :: "string \<Rightarrow> string" where
  "trim s = rev (dropWhile is_white (rev (dropWhile is_white s)))"

text \<open>
  \<^verbatim>\<open>toLowerCase\<close>: the capital letters are \<open>A\<close> to \<open>Z\<close> and the Latin-1 capitals \<open>0xC0\<close> to
  \<open>0xDE\<close> without the multiplication sign \<open>0xD7\<close>; the small letter is 32 further.
\<close>

definition lower_char :: "char \<Rightarrow> char" where
  "lower_char c =
     (let n = (of_char c :: nat)
      in if (65 \<le> n \<and> n \<le> 90) \<or> (192 \<le> n \<and> n \<le> 222 \<and> n \<noteq> 215) then char_of (n + 32) else c)"

definition toLowerCase :: "string \<Rightarrow> string" where
  "toLowerCase s = map lower_char s"

text \<open>\<^verbatim>\<open>s.split(c)\<close> for a one-character separator: never an empty list.\<close>

fun split_on :: "char \<Rightarrow> string \<Rightarrow> string list" where
  "split_on c [] = [[]]"
| "split_on c (x # xs) =
     (if x = c then [] # split_on c xs
      else (case split_on c xs of [] \<Rightarrow> [[x]] | w # ws \<Rightarrow> (x # w) # ws))"

text \<open>\<^verbatim>\<open>parts.join(sep)\<close> on strings.\<close>

fun join :: "string \<Rightarrow> string list \<Rightarrow> string" where
  "join sep [] = []"
| "join sep [x] = x"
| "join sep (x # y # ys) = x @ sep @ join sep (y # ys)"

text \<open>
  \<^verbatim>\<open>v.replace(/^"|"$/g, '')\<close>: a double quote at the start is removed, and then one at the
  end of what is left.
\<close>

definition strip_quotes :: "string \<Rightarrow> string" where
  "strip_quotes s =
     (let s1 = (case s of [] \<Rightarrow> [] | c # cs \<Rightarrow> if c = dquote then cs else s)
      in if s1 \<noteq> [] \<and> last s1 = dquote then butlast s1 else s1)"

text \<open>\<^verbatim>\<open>h.replace(/[()]/g, '')\<close>.\<close>

definition strip_parens :: "string \<Rightarrow> string" where
  "strip_parens s = filter (\<lambda>c. c \<noteq> CHR ''('' \<and> c \<noteq> CHR '')'') s"

text \<open>A value in a template literal or a string concatenation: \<^verbatim>\<open>undefined\<close> is spelled out.\<close>

definition js_string :: "string option \<Rightarrow> string" where
  "js_string v = (case v of None \<Rightarrow> ''undefined'' | Some s \<Rightarrow> s)"

text \<open>\<^verbatim>\<open>a || b\<close> on values that are strings or \<^verbatim>\<open>undefined\<close>: the empty string is falsy.\<close>

definition or_else :: "string option \<Rightarrow> string option \<Rightarrow> string option" where
  "or_else a b = (case a of None \<Rightarrow> b | Some s \<Rightarrow> if s = [] then b else a)"

text \<open>\<^verbatim>\<open>a || 0\<close> as \<^verbatim>\<open>parseFloat\<close> and \<^verbatim>\<open>parseInt\<close> read it: their argument is turned into a string.\<close>

definition or_zero :: "string option \<Rightarrow> string" where
  "or_zero a = (case a of None \<Rightarrow> ''0'' | Some s \<Rightarrow> if s = [] then ''0'' else s)"

subsection \<open>Reading numbers\<close>

definition is_digit :: "char \<Rightarrow> bool" where
  "is_digit c = (c \<in> set ''0123456789'')"

definition digit_val :: "char \<Rightarrow> nat" where
  "digit_val c = of_char c - 48"

definition digits_val :: "string \<Rightarrow> nat" where
  "digits_val ds = foldl (\<lambda>a c. 10 * a + digit_val c) 0 ds"

text \<open>An optional sign: whether it is a minus, and the rest.\<close>

definition read_sign :: "string \<Rightarrow> bool \<times> string" where
  "read_sign s =
     (case s of [] \<Rightarrow> (False, [])
      | c # cs \<Rightarrow> if c = CHR ''-'' then (True, cs) else if c = CHR ''+'' then (False, cs) else (False, s))"

text \<open>
  The exponent part of a decimal literal, \<open>e\<close> or \<open>E\<close> with a signed integer; without digits
  there is no exponent part and the value is 0.
\<close>

definition read_exponent :: "string \<Rightarrow> int" where
  "read_exponent s =
     (case s of [] \<Rightarrow> 0
      | c # cs \<Rightarrow>
          if c = CHR ''e'' \<or> c = CHR ''E'' then
            (let (neg, r) = read_sign cs; ds = takeWhile is_digit r
             in if ds = [] then 0 else if neg then - int (digits_val ds) else int (digits_val ds))
          else 0)"

text \<open>
  \<^verbatim>\<open>parseFloat\<close>: leading white space is skipped, then the longest prefix that is a decimal
  literal (sign, \<^verbatim>\<open>Infinity\<close> or digits with an optional fraction and exponent) is read; the
  result is \<^verbatim>\<open>NaN\<close> when there is none, and otherwise the double nearest to the decimal value.
\<close>

definition parseFloat :: "string \<Rightarrow> number" where
  "parseFloat input =
     (let (neg, s) = read_sign (dropWhile is_white input)
      in if prefix ''Infinity'' s then (if neg then NegInf else PosInf)
         else
           let ip = takeWhile is_digit s;
               r1 = dropWhile is_digit s;
               (fp, r2) = (case r1 of [] \<Rightarrow> ([], [])
                           | c # cs \<Rightarrow> if c = CHR ''.'' then (takeWhile is_digit cs, dropWhile is_digit cs)
                                      else ([], r1))
           in if ip = [] \<and> fp = [] then NaN
              else
                let e = read_exponent r2;
                    m = (of_nat (digits_val ip) + of_nat (digits_val fp) / 10 ^ length fp)
                        * (if 0 \<le> e then 10 ^ nat e else 1 / 10 ^ nat (- e))
                in round_double (if neg then - m else m))"

text \<open>
  \<^verbatim>\<open>parseInt\<close> without a radix: leading white space and a sign, a prefix \<^verbatim>\<open>0x\<close> or \<^verbatim>\<open>0X\<close>
  selects base 16, then the longest run of digits of the base is read; \<^verbatim>\<open>NaN\<close> when it is
  empty, and otherwise the double nearest to the integer.
\<close>

definition hex_val :: "char \<Rightarrow> nat option" where
  "hex_val c =
     (let n = (of_char c :: nat)
      in if 48 \<le> n \<and> n \<le> 57 then Some (n - 48)
         else if 97 \<le> n \<and> n \<le> 102 then Some (n - 87)
         else if 65 \<le> n \<and> n \<le> 70 then Some (n - 55)
         else None)"

definition parseInt :: "string \<Rightarrow> number" where
  "parseInt input =
     (let (neg, s) = read_sign (dropWhile is_white input)
      in if prefix ''0x'' s \<or> prefix ''0X'' s then
           (let z = takeWhile (\<lambda>c. hex_val c \<noteq> None) (drop 2 s);
                v = foldl (\<lambda>a c. 16 * a + the (hex_val c)) 0 z
            in if z = [] then NaN else round_double (if neg then - of_nat v else of_nat v))
         else
           (let z = takeWhile is_digit s
            in if z = [] then NaN
               else round_double (if neg then - of_nat (digits_val z) else of_nat (digits_val z))))"

section \<open>Record codec (dataService.ts)\<close>

text \<open>
  The row object \<^verbatim>\<open>obj\<close> of the three decoders:
  \<^verbatim>\<open>headers.forEach((header, i) => obj[header] = values[i])\<close>. A later column with the same
  header overwrites an earlier one, also with \<^verbatim>\<open>undefined\<close> when the row is too short. The
  decoders read it only at fixed keys, none of which is a property of \<^verbatim>\<open>Object.prototype\<close>.
\<close>

definition row_object :: "string list \<Rightarrow> string list \<Rightarrow> (string \<Rightarrow> string option)" where
  "row_object headers values =
     fold (\<lambda>(i, header) obj. obj(header := (if i < length values then Some (values ! i) else None)))
       (enumerate 0 headers) (\<lambda>_. None)"

text \<open>
  The lines the three decoders share, with the decoder's way \<open>normalise\<close> to normalise a header:
  \<^verbatim>\<open>
  const lines = csvText.split('\n');
  if (lines.length < 2) return [];
  const headers = lines[0].split(',').map(normalise);
  return lines.slice(1).filter(l => l.trim()).map(line => {
    const values = line.split(',').map(v => v.trim().replace(/^"|"$/g, ''));
    const obj: any = {};
    headers.forEach((header, i) => obj[header] = values[i]);
    ...\<close>
  The result is the list of the row objects, one for each line after the first that is
  not blank.
\<close>

definition row_objects :: "(string \<Rightarrow> string) \<Rightarrow> string \<Rightarrow> (string \<Rightarrow> string option) list" where
  "row_objects normalise csvText =
     (let lines = split_on newline csvText
      in if length lines < 2 then []
         else
           let headers = map normalise (split_on comma (lines ! 0))
           in map (\<lambda>line. row_object headers (map (\<lambda>v. strip_quotes (trim v)) (split_on comma line)))
                (filter (\<lambda>l. trim l \<noteq> []) (drop 1 lines)))"

subsection \<open>parseNegotiationCSV\<close>

record NegotiatedRate = FilterState +
  proposedPrice :: number
  proposedLeadTime :: number

definition negotiation_row :: "(string \<Rightarrow> string option) \<Rightarrow> NegotiatedRate" where
  "negotiation_row obj =
     \<lparr>partNumber = or_else (obj ''part number'') (obj ''partnumber''),
      vendor = obj ''vendor'',
      country = obj ''country'',
      proposedPrice = parseFloat (or_zero (or_else (obj ''proposed price'') (obj ''price''))),
      proposedLeadTime = parseInt (or_zero (or_else (obj ''proposed lead time'') (obj ''lead time'')))\<rparr>"

definition parseNegotiationCSV :: "string \<Rightarrow> NegotiatedRate list" where
  "parseNegotiationCSV csvText =
     map negotiation_row (row_objects (\<lambda>h. toLowerCase (trim h)) csvText)"

subsection \<open>parseCSV\<close>

text \<open>
  \<^verbatim>\<open>crypto.randomUUID()\<close> and \<^verbatim>\<open>new Date().toISOString()\<close> are evaluated once for every row;
  \<open>randomUUID i\<close> and \<open>now i\<close> are their values at row \<open>i\<close>.
\<close>

definition historical_row :: "string \<Rightarrow> string \<Rightarrow> (string \<Rightarrow> string option) \<Rightarrow> HistoricalData" where
  "historical_row uuid timestamp obj =
     \<lparr>partNumber = or_else (or_else (obj ''part number'') (obj ''partnumber'')) (obj ''sku''),
      vendor = obj ''vendor'',
      country = obj ''country'',
      ident = uuid,
      usdPrice = parseFloat (or_zero (or_else (or_else (obj ''usd pricing'') (obj ''usd price'')) (obj ''price''))),
      quantity = parseInt (or_zero (or_else (obj ''quantity'') (obj ''qty''))),
      leadTimeDays = parseInt (or_zero (or_else (or_else (obj ''lead time days'') (obj ''lead time'')) (obj ''leadtime''))),
      date = (case obj ''date'' of None \<Rightarrow> timestamp | Some d \<Rightarrow> if d = [] then timestamp else d),
      isOutlier = None\<rparr>"

definition parseCSV :: "(nat \<Rightarrow> string) \<Rightarrow> (nat \<Rightarrow> string) \<Rightarrow> string \<Rightarrow> HistoricalData list" where
  "parseCSV randomUUID now csvText =
     map (\<lambda>(i, obj). historical_row (randomUUID i) (now i) obj)
       (enumerate 0 (row_objects (\<lambda>h. strip_parens (toLowerCase (trim h))) csvText))"

subsection \<open>parseForecastCSV\<close>

datatype trend = Up | Down | Stable

record ForecastPoint =
  date' :: "string option"
  predictedPrice :: number
  predictedLeadTime :: number
  confidenceIntervalUpper :: number
  confidenceIntervalLower :: number

record Summary =
  avgPredictedPrice :: number
  avgPredictedLeadTime :: number
  priceTrend :: trend
  leadTimeTrend :: trend
  optimizedOrderQuantity :: number

record ForecastResult = FilterState +
  forecast :: "ForecastPoint list"
  summary :: Summary

text \<open>
  An element of \<^verbatim>\<open>rawPoints\<close>: the key fields and the five fields of the point, which the
  grouping loop copies one by one into a \<^verbatim>\<open>ForecastPoint\<close>; they are kept together as that
  point.
\<close>

record RawPoint = FilterState +
  point :: ForecastPoint

definition forecast_row :: "(string \<Rightarrow> string option) \<Rightarrow> RawPoint" where
  "forecast_row obj =
     \<lparr>partNumber = or_else (obj ''part number'') (obj ''partnumber''),
      vendor = obj ''vendor'',
      country = obj ''country'',
      point =
        \<lparr>date' = obj ''date'',
         predictedPrice = parseFloat (or_zero (obj ''predicted price'')),
         predictedLeadTime = parseInt (or_zero (obj ''predicted lead time'')),
         confidenceIntervalUpper = parseFloat (or_zero (obj ''confidence upper'')),
         confidenceIntervalLower = parseFloat (or_zero (obj ''confidence lower''))\<rparr>\<rparr>"

text \<open>The key of the \<^verbatim>\<open>Map\<close>: \<^verbatim>\<open>`${p.partNumber}|${p.vendor}|${p.country}`\<close>.\<close>

definition group_key :: "RawPoint \<Rightarrow> string" where
  "group_key p = js_string (partNumber p) @ ''|'' @ js_string (vendor p) @ ''|'' @ js_string (country p)"

text \<open>The summary and the entry that \<^verbatim>\<open>groups.set\<close> stores for a new key.\<close>

definition zero_summary :: Summary where
  "zero_summary =
     \<lparr>avgPredictedPrice = Fin 0, avgPredictedLeadTime = Fin 0,
      priceTrend = Stable, leadTimeTrend = Stable, optimizedOrderQuantity = Fin 0\<rparr>"

definition new_group :: "RawPoint \<Rightarrow> ForecastResult" where
  "new_group p =
     \<lparr>partNumber = partNumber p, vendor = vendor p, country = country p,
      forecast = [], summary = zero_summary\<rparr>"

text \<open>
  One round of \<^verbatim>\<open>rawPoints.forEach\<close>. The \<^verbatim>\<open>Map\<close> is the list of its entries in insertion
  order; a new key is appended, and the point is pushed onto the entry of its key.
\<close>

definition add_point :: "RawPoint \<Rightarrow> (string \<times> ForecastResult) list \<Rightarrow> (string \<times> ForecastResult) list" where
  "add_point p groups =
     (let key = group_key p;
          groups1 = (if key \<in> set (map fst groups) then groups else groups @ [(key, new_group p)])
      in map (\<lambda>(k, res). if k = key then (k, res\<lparr>forecast := forecast res @ [point p]\<rparr>) else (k, res))
           groups1)"

text \<open>One round of \<^verbatim>\<open>groups.forEach\<close>: the summary of a group.\<close>

definition summarise :: "ForecastResult \<Rightarrow> ForecastResult" where
  "summarise res =
     (let prices = map predictedPrice (forecast res);
          leadTimes = map predictedLeadTime (forecast res);
          s1 = (summary res)
                 \<lparr>avgPredictedPrice :=
                    num_div (foldl num_add (Fin 0) prices) (Fin (of_nat (length prices))),
                  avgPredictedLeadTime :=
                    num_div (foldl num_add (Fin 0) leadTimes) (Fin (of_nat (length leadTimes)))\<rparr>;
          s2 = (if length prices > 1 then
                  (let diff = num_sub (prices ! (length prices - 1)) (prices ! 0)
                   in s1\<lparr>priceTrend :=
                           if num_gt diff (Fin 0) then Up else if num_lt diff (Fin 0) then Down else Stable\<rparr>)
                else s1)
      in res\<lparr>summary := s2\<rparr>)"

definition parseForecastCSV :: "string \<Rightarrow> ForecastResult list" where
  "parseForecastCSV csvText =
     (let rawPoints = map forecast_row (row_objects (\<lambda>h. toLowerCase (trim h)) csvText);
          groups = fold add_point rawPoints []
      in map (\<lambda>(k, res). summarise res) groups)"

section \<open>Combination enumeration (App.tsx, handleGenerateAllForecasts)\<close>

text \<open>
  \<^verbatim>\<open>Array.from(new Set(xs))\<close>: a \<^verbatim>\<open>Set\<close> keeps its elements in insertion order and ignores
  an element it already holds.
\<close>

definition array_from_set :: "'a list \<Rightarrow> 'a list" where
  "array_from_set xs = fold (\<lambda>x s. if x \<in> set s then s else s @ [x]) xs []"

text \<open>
  The array \<^verbatim>\<open>combinations\<close> that \<^verbatim>\<open>handleGenerateAllForecasts\<close> builds before it calls the
  bulk forecast. On empty data the handler returns at once and no combination exists.
\<close>

definition combinations :: "HistoricalData list \<Rightarrow> FilterState list" where
  "combinations activeData =
     (if length activeData = 0 then []
      else
        let parts = array_from_set (map partNumber activeData)
        in concat (map (\<lambda>p.
             let filteredByP = filter (\<lambda>d. partNumber d = p) activeData;
                 vendorsByP = array_from_set (map vendor filteredByP)
             in concat (map (\<lambda>v.
                  let countriesByPV =
                        array_from_set (map country (filter (\<lambda>d. vendor d = v) filteredByP))
                  in map (\<lambda>c. \<lparr>partNumber = p, vendor = v, country = c\<rparr>) countriesByPV)
                  vendorsByP))
             parts))"

text \<open>The two inner loops of the enumeration on their own: the triples of a part and vendor, and those of a part.\<close>

definition countriesByPV :: "HistoricalData list \<Rightarrow> string option \<Rightarrow> string option \<Rightarrow> FilterState list" where
  "countriesByPV ds p v =
     map (\<lambda>c. \<lparr>partNumber = p, vendor = v, country = c\<rparr>)
       (array_from_set (map country (filter (\<lambda>d. vendor d = v) (filter (\<lambda>d. partNumber d = p) ds))))"

definition vendorsByP :: "HistoricalData list \<Rightarrow> string option \<Rightarrow> FilterState list" where
  "vendorsByP ds p =
     concat (map (countriesByPV ds p) (array_from_set (map vendor (filter (\<lambda>d. partNumber d = p) ds))))"

subsection \<open>First-seen order\<close>

text \<open>
  The order the specification gives the triples: the position of the first record with the
  triple's part, then the position of the first record with its vendor among the records of
  that part, then the position of the first record with its country among the records of
  that part and vendor.
\<close>

definition first_seen :: "('a \<Rightarrow> bool) \<Rightarrow> 'a list \<Rightarrow> nat" where
  "first_seen P xs = length (takeWhile (\<lambda>x. \<not> P x) xs)"

definition rank :: "HistoricalData list \<Rightarrow> FilterState \<Rightarrow> nat \<times> nat \<times> nat" where
  "rank records t =
     (first_seen (\<lambda>d. partNumber d = partNumber t) records,
      first_seen (\<lambda>d. vendor d = vendor t) (filter (\<lambda>d. partNumber d = partNumber t) records),
      first_seen (\<lambda>d. country d = country t)
        (filter (\<lambda>d. vendor d = vendor t) (filter (\<lambda>d. partNumber d = partNumber t) records)))"

definition triple_of :: "HistoricalData \<Rightarrow> FilterState" where
  "triple_of d = \<lparr>partNumber = partNumber d, vendor = vendor d, country = country d\<rparr>"

section \<open>Single forecast request (geminiService.ts, getForecastFromAI)\<close>

text \<open>
  A thrown value: an \<^verbatim>\<open>Error\<close> or a \<^verbatim>\<open>SyntaxError\<close> with its message (\<open>None\<close> when the
  thrown value has none).
\<close>

datatype js_error = Error "string option" | SyntaxError "string option"

fun message :: "js_error \<Rightarrow> string option" where
  "message (Error m) = m"
| "message (SyntaxError m) = m"

text \<open>\<^verbatim>\<open>s.includes(t)\<close>.\<close>

fun includes_str :: "string \<Rightarrow> string \<Rightarrow> bool" where
  "includes_str [] t = (t = [])"
| "includes_str (c # cs) t = (prefix t (c # cs) \<or> includes_str cs t)"

text \<open>\<^verbatim>\<open>handleAIError\<close>: the error it throws in place of the one it is given.\<close>

definition handleAIError :: "js_error \<Rightarrow> js_error" where
  "handleAIError error =
     (let msg = toLowerCase (case message error of None \<Rightarrow> [] | Some m \<Rightarrow> m)
      in if includes_str msg ''429'' \<or> includes_str msg ''quota'' \<or> includes_str msg ''rate limit'' then
           Error (Some ''AI Rate Limit Exceeded: The system is currently busy. Please wait a moment before trying again.'')
         else if includes_str msg ''503'' \<or> includes_str msg ''unavailable'' \<or> includes_str msg ''overloaded'' then
           Error (Some ''AI Service Unavailable: The prediction engine is temporarily offline. Please try again in a few minutes.'')
         else if includes_str msg ''api key'' \<or> includes_str msg ''401'' \<or> includes_str msg ''403'' then
           Error (Some ''Authentication Error: The AI service could not verify your credentials. Please check your configuration.'')
         else if (case error of SyntaxError _ \<Rightarrow> True | Error _ \<Rightarrow> False) then
           Error (Some ''Data Interpretation Error: The AI returned an invalid response format. This may happen with highly unusual data patterns.'')
         else
           Error (Some (''AI System Error: '' @
             (case message error of
                None \<Rightarrow> ''An unexpected error occurred while processing your request.''
              | Some m \<Rightarrow> if m = [] then ''An unexpected error occurred while processing your request.'' else m))))"

text \<open>
  What \<^verbatim>\<open>ai.models.generateContent\<close> is sent: the model, the records of the prompt and the
  key of the system instruction. The second version of the service also puts three
  statistics of the price series into the prompt; \<open>statistics\<close> is the series they are
  computed from (\<open>None\<close> in the first version).
\<close>

record Request =
  model' :: string
  contents :: "HistoricalData list"
  instruction :: FilterState
  statistics :: "number list option"

text \<open>\<^verbatim>\<open>xs.slice(-n)\<close>: the last \<open>n\<close> elements.\<close>

definition slice_last :: "nat \<Rightarrow> 'a list \<Rightarrow> 'a list" where
  "slice_last n xs = drop (length xs - n) xs"

text \<open>
  The records of the key, in the order of their dates:
  \<^verbatim>\<open>historicalData.filter(...).sort((a, b) => new Date(a.date).getTime() - new Date(b.date).getTime())\<close>.
  \<open>getTime\<close> stands for \<^verbatim>\<open>new Date(s).getTime()\<close>.
\<close>

definition context_data :: "(string \<Rightarrow> number) \<Rightarrow> HistoricalData list \<Rightarrow> FilterState \<Rightarrow> HistoricalData list" where
  "context_data getTime historicalData filters =
     array_sort (\<lambda>a b. num_sub (getTime (date a)) (getTime (date b)))
       (filter (\<lambda>d. partNumber d = partNumber filters \<and> vendor d = vendor filters
                    \<and> country d = country filters) historicalData)"

text \<open>
  The part of both versions inside \<^verbatim>\<open>try\<close>: the call of the engine, the check of the
  response text, \<^verbatim>\<open>JSON.parse\<close>, and the key written over the parsed object; every throw is
  caught and handed to \<^verbatim>\<open>handleAIError\<close>. The engine \<open>generateContent\<close> throws or returns
  the response text, \<open>json_parse\<close> throws or returns the object; \<open>noText\<close> is the message for
  a response without text.
\<close>

definition call_engine ::
  "(Request \<Rightarrow> js_error + string option) \<Rightarrow> (string \<Rightarrow> js_error + ForecastResult) \<Rightarrow> string
    \<Rightarrow> FilterState \<Rightarrow> Request \<Rightarrow> js_error + ForecastResult" where
  "call_engine generateContent json_parse noText filters request =
     (case generateContent request of
        Inl err \<Rightarrow> Inl (handleAIError err)
      | Inr text \<Rightarrow>
          (case text of
             None \<Rightarrow> Inl (handleAIError (Error (Some noText)))
           | Some t \<Rightarrow>
               if t = [] then Inl (handleAIError (Error (Some noText)))
               else (case json_parse t of
                       Inl err \<Rightarrow> Inl (handleAIError err)
                     | Inr parsed \<Rightarrow>
                         Inr (parsed\<lparr>vendor := vendor filters, country := country filters,
                                partNumber := partNumber filters\<rparr>))))"

text \<open>
  \<^verbatim>\<open>getForecastFromAI\<close>, first version. The result is what the function throws (\<open>Inl\<close>) or
  returns (\<open>Inr\<close>), with the list of the requests sent to the engine. Building the client
  (\<^verbatim>\<open>new GoogleGenAI\<close>) sends nothing.
\<close>

definition getForecastFromAI ::
  "(Request \<Rightarrow> js_error + string option) \<Rightarrow> (string \<Rightarrow> js_error + ForecastResult) \<Rightarrow> (string \<Rightarrow> number)
    \<Rightarrow> HistoricalData list \<Rightarrow> FilterState \<Rightarrow> string \<Rightarrow> (js_error + ForecastResult) \<times> Request list" where
  "getForecastFromAI generateContent json_parse getTime historicalData filters model =
     (let contextData = context_data getTime historicalData filters
      in if length contextData = 0 then
           (Inl (Error (Some ''Missing Historical Data: No records found matching the selected filters.'')), [])
         else if length contextData < 3 then
           (Inl (Error (Some ''Insufficient Data: At least 3 historical points are required for a reliable AI forecast.'')), [])
         else
           let request = \<lparr>model' = model, contents = slice_last 24 contextData,
                           instruction = filters, statistics = None\<rparr>
           in (call_engine generateContent json_parse
                 ''Empty AI Response: The engine failed to generate content.'' filters request,
               [request]))"

text \<open>
  \<^verbatim>\<open>getForecastFromAI\<close>, second version: the same two guards, then the statistics (pure
  arithmetic on at least 3 prices) and the request with the last 36 records.
\<close>

definition getForecastFromAI2 ::
  "(Request \<Rightarrow> js_error + string option) \<Rightarrow> (string \<Rightarrow> js_error + ForecastResult) \<Rightarrow> (string \<Rightarrow> number)
    \<Rightarrow> HistoricalData list \<Rightarrow> FilterState \<Rightarrow> string \<Rightarrow> (js_error + ForecastResult) \<times> Request list" where
  "getForecastFromAI2 generateContent json_parse getTime historicalData filters model =
     (let contextData = context_data getTime historicalData filters
      in if length contextData = 0 then
           (Inl (Error (Some ''Missing Historical Data: No records found matching the selected filters.'')), [])
         else if length contextData < 3 then
           (Inl (Error (Some ''Insufficient Data: At least 3 historical points are required for a reliable AI forecast.'')), [])
         else
           let prices = map usdPrice contextData;
               request = \<lparr>model' = model, contents = slice_last 36 contextData,
                           instruction = filters, statistics = Some prices\<rparr>
           in (call_engine generateContent json_parse ''Empty AI Response.'' filters request,
               [request]))"

subsection \<open>Lenient numeric fields\<close>

text \<open>
  What the decoders do with a numeric field, in the words of the specification as amended
  below: a column that is missing or empty is blank; the first alias column that is not
  blank is parsed, and the field is 0 when every alias column is blank.
\<close>

definition blank :: "string option \<Rightarrow> bool" where
  "blank v = (v = None \<or> v = Some [])"

definition lenient :: "(string \<Rightarrow> number) \<Rightarrow> string option list \<Rightarrow> number" where
  "lenient parse aliases =
     (case filter (\<lambda>v. \<not> blank v) aliases of [] \<Rightarrow> Fin 0 | v # _ \<Rightarrow> parse (js_string v))"

text \<open>
  A string has a numeric prefix for \<^verbatim>\<open>parseFloat\<close> when, after its leading white space and
  one optional sign, it goes on with \<^verbatim>\<open>Infinity\<close>, with a digit, or with a dot and a digit;
  for \<^verbatim>\<open>parseInt\<close> when it goes on with a digit, or after \<^verbatim>\<open>0x\<close> or \<^verbatim>\<open>0X\<close> with a
  hexadecimal digit.
\<close>

definition float_prefix :: "string \<Rightarrow> bool" where
  "float_prefix input =
     (let s = snd (read_sign (dropWhile is_white input))
      in prefix ''Infinity'' s
         \<or> (case s of [] \<Rightarrow> False
             | c # cs \<Rightarrow> is_digit c
                 \<or> (c = CHR ''.'' \<and> (case cs of [] \<Rightarrow> False | d # _ \<Rightarrow> is_digit d))))"

definition int_prefix :: "string \<Rightarrow> bool" where
  "int_prefix input =
     (let s = snd (read_sign (dropWhile is_white input))
      in if prefix ''0x'' s \<or> prefix ''0X'' s
         then (case drop 2 s of [] \<Rightarrow> False | c # _ \<Rightarrow> hex_val c \<noteq> None)
         else (case s of [] \<Rightarrow> False | c # _ \<Rightarrow> is_digit c))"

text \<open>
  The points that the data rows of a forecast CSV stand for, row by row, with every
  numeric field read leniently.
\<close>

definition lenient_point :: "(string \<Rightarrow> string option) \<Rightarrow> ForecastPoint" where
  "lenient_point obj =
     \<lparr>date' = obj ''date'',
      predictedPrice = lenient parseFloat [obj ''predicted price''],
      predictedLeadTime = lenient parseInt [obj ''predicted lead time''],
      confidenceIntervalUpper = lenient parseFloat [obj ''confidence upper''],
      confidenceIntervalLower = lenient parseFloat [obj ''confidence lower'']\<rparr>"

subsection \<open>Sample inputs\<close>

definition header_only :: string where
  "header_only = ''Part Number,Vendor,Country'' @ [newline] @ ''  '' @ [newline]"

definition unparseable_price :: string where
  "unparseable_price = ''Part Number,USD Pricing,Quantity'' @ [newline] @ ''SKU-1,abc,12''"

definition forecast_header :: string where
  "forecast_header =
     ''Part Number,Vendor,Country,Date,Predicted Price,Predicted Lead Time,Confidence Upper,Confidence Lower''"

definition two_dates :: string where
  "two_dates = forecast_header @ [newline]
     @ ''SKU-1001,GlobalLogistics Inc,USA,2024-01-01,140.00,15,145.00,135.00'' @ [newline]
     @ ''SKU-1001,GlobalLogistics Inc,USA,2024-02-01,150.00,18,155.00,145.00''"

definition colliding_keys :: string where
  "colliding_keys = forecast_header @ [newline]
     @ ''A|B,C,US,2024-01-01,10,5,11,9'' @ [newline]
     @ ''A,B|C,US,2024-02-01,20,7,21,19''"

definition fixed_uuid :: "nat \<Rightarrow> string" where
  "fixed_uuid i = ''00000000-0000-4000-8000-000000000000''"

definition fixed_now :: "nat \<Rightarrow> string" where
  "fixed_now i = ''2026-01-01T00:00:00.000Z''"

text \<open>An engine that answers without text, a parser that rejects its input, a clock that reads no date.\<close>

definition silent_engine :: "Request \<Rightarrow> js_error + string option" where
  "silent_engine request = Inr None"

definition no_json :: "string \<Rightarrow> js_error + ForecastResult" where
  "no_json text = Inl (SyntaxError (Some ''Unexpected end of JSON input''))"

definition no_time :: "string \<Rightarrow> number" where
  "no_time s = NaN"

definition sample_key :: FilterState where
  "sample_key = \<lparr>partNumber = Some ''SKU-1001'', vendor = Some ''TechSupply Co'', country = Some ''USA''\<rparr>"

text \<open>
  The data of section 8 of the specification: part A with vendor V1 in US and vendor V2 in
  DE, part B with vendor V1 in US; the first record occurs twice.
\<close>

definition keyed :: "string \<Rightarrow> string \<Rightarrow> string \<Rightarrow> HistoricalData" where
  "keyed p v c = \<lparr>partNumber = Some p, vendor = Some v, country = Some c,
     ident = ''r'', usdPrice = Fin 100, quantity = Fin 10, leadTimeDays = Fin 14,
     date = ''2024-01-01'', isOutlier = None\<rparr>"

definition three_combinations :: "HistoricalData list" where
  "three_combinations =
     [keyed ''A'' ''V1'' ''US'', keyed ''A'' ''V2'' ''DE'', keyed ''B'' ''V1'' ''US'', keyed ''A'' ''V1'' ''US'']"

section \<open>Verification\<close>

subsection \<open>Rounding\<close>

lemma pow2_eq: "pow2 k = 2 powi k"
proof (induction k rule: pow2.induct)
  case (1 k)
  show ?case
  proof (cases "k < 0")
    case True
    then have "pow2 k = 1 / pow2 (- k)" by (subst pow2.simps) simp
    also have "\<dots> = 1 / 2 powi (- k)" using 1(1) [OF True] by simp
    also have "\<dots> = 2 powi k" by (simp add: power_int_minus field_simps)
    finally show ?thesis .
  next
    case False
    show ?thesis
    proof (cases "k = 0")
      case True
      then show ?thesis by (subst pow2.simps) simp
    next
      case k0: False
      have ih: "pow2 (k div 2) = 2 powi (k div 2)"
        using 1(2) [OF False k0] .
      have hh: "(2 :: rat) powi (k div 2) * 2 powi (k div 2) = 2 powi (2 * (k div 2))"
        by (simp add: power_int_add [symmetric])
      show ?thesis
      proof (cases "even k")
        case True
        then have "2 * (k div 2) = k" by simp
        with hh have "(2 :: rat) powi (k div 2) * 2 powi (k div 2) = 2 powi k" by simp
        then show ?thesis
          using False k0 True ih by (subst pow2.simps) (simp add: Let_def)
      next
        case odd: False
        then have "2 * (k div 2) + 1 = k" by simp
        then have "(2 :: rat) powi k = 2 powi (2 * (k div 2) + 1)" by simp
        also have "\<dots> = 2 * (2 powi (k div 2) * 2 powi (k div 2))"
          unfolding hh by (simp add: power_int_add)
        finally show ?thesis
          using False k0 odd ih by (subst pow2.simps) (simp add: Let_def)
      qed
    qed
  qed
qed

lemma powi_mono: "a \<le> b \<Longrightarrow> (2 :: rat) powi a \<le> 2 powi b"
  by (rule power_int_increasing) simp_all

lemma powi_pos: "0 < (2 :: rat) powi a"
  by simp

lemma floor_log2_le:
  assumes "0 < a"
  shows "2 powi floor_log2 a \<le> a"
proof -
  obtain p q where pq: "quotient_of a = (p, q)" by (cases "quotient_of a")
  have q: "0 < q" using pq by (rule quotient_of_denom_pos)
  have a: "a = of_int p / of_int q" using pq by (rule quotient_of_div)
  have p: "0 < p" using assms q unfolding a by (simp add: zero_less_divide_iff)
  define e where "e = bitlen p - bitlen q"
  have fl: "floor_log2 a = (if 2 powi e \<le> a then e else e - 1)"
    by (simp add: floor_log2_def pq e_def pow2_eq Let_def)
  have bp: "2 ^ nat (bitlen p - 1) \<le> p" using bitlen_bounds [OF p] by simp
  have bq: "q < 2 ^ nat (bitlen q)" using bitlen_bounds [OF q] by simp
  have bp1: "1 \<le> bitlen p" using p by (simp add: bitlen_alt_def)
  have bq0: "0 \<le> bitlen q" by (rule bitlen_nonneg)
  have P: "(2 :: rat) powi (bitlen p - 1) \<le> of_int p"
  proof -
    have "(2 :: rat) powi (bitlen p - 1) = 2 ^ nat (bitlen p - 1)"
      using bp1 by (simp add: power_int_def)
    also have "\<dots> = of_int (2 ^ nat (bitlen p - 1))" by simp
    also have "\<dots> \<le> of_int p" using bp by (simp only: of_int_le_iff)
    finally show ?thesis .
  qed
  have Q: "of_int q \<le> (2 :: rat) powi (bitlen q)"
  proof -
    have "(of_int q :: rat) \<le> of_int (2 ^ nat (bitlen q))" using bq by (simp only: of_int_le_iff)
    also have "\<dots> = 2 powi (bitlen q)" using bq0 by (simp add: power_int_def)
    finally show ?thesis .
  qed
  have "(2 :: rat) powi (e - 1) = 2 powi (bitlen p - 1) / 2 powi (bitlen q)"
    unfolding e_def by (simp add: power_int_diff)
  also have "\<dots> \<le> of_int p / 2 powi (bitlen q)"
    using P by (simp add: divide_right_mono)
  also have "\<dots> \<le> of_int p / of_int q"
    using Q q p by (simp add: frac_le)
  finally have low: "(2 :: rat) powi (e - 1) \<le> a" unfolding a .
  show ?thesis unfolding fl using low by simp
qed

lemma round_half_even_ge:
  assumes "of_int n \<le> x"
  shows "n \<le> round_half_even x"
proof -
  have "n \<le> \<lfloor>x\<rfloor>" using assms by (simp add: le_floor_iff)
  then show ?thesis by (simp add: round_half_even_def Let_def)
qed

lemma ulp_min_pos: "0 < ulp_min"
  unfolding ulp_min_def pow2_eq by (rule powi_pos)

lemma powi_split:
  assumes "g \<le> e"
  shows "(2 :: rat) powi e = of_int (2 ^ nat (e - g)) * 2 powi g"
proof -
  have "(2 :: rat) powi e = 2 powi ((e - g) + g)" by simp
  also have "\<dots> = 2 powi (e - g) * 2 powi g" by (rule power_int_add) simp
  also have "(2 :: rat) powi (e - g) = of_int (2 ^ nat (e - g))"
    using assms by (simp add: power_int_def)
  finally show ?thesis .
qed

lemma powi_grid:
  assumes "- 1074 \<le> e"
  shows "(2 :: rat) powi e = of_int (2 ^ nat (e - (- 1074))) * ulp_min"
  unfolding ulp_min_def pow2_eq by (rule powi_split [OF assms])

lemma on_grid_0: "on_grid 0"
  unfolding on_grid_def by (rule exI [of _ 0]) simp

lemma on_grid_minus:
  assumes "on_grid x"
  shows "on_grid (- x)"
proof -
  from assms obtain k :: int where "x = of_int k * ulp_min" unfolding on_grid_def by blast
  then have "- x = of_int (- k) * ulp_min" by simp
  then show ?thesis unfolding on_grid_def by blast
qed

lemma on_grid_diff:
  assumes "on_grid x" "on_grid y"
  shows "on_grid (x - y)"
proof -
  from assms obtain k l :: int where "x = of_int k * ulp_min" "y = of_int l * ulp_min"
    unfolding on_grid_def by blast
  then have "x - y = of_int (k - l) * ulp_min" by (simp add: algebra_simps)
  then show ?thesis unfolding on_grid_def by blast
qed

lemma on_grid_scaled:
  assumes "- 1074 \<le> e"
  shows "on_grid (of_int m * 2 powi e)"
proof -
  have "of_int m * (2 :: rat) powi e = of_int (m * 2 ^ nat (e - (- 1074))) * ulp_min"
    unfolding powi_grid [OF assms] by simp
  then show ?thesis unfolding on_grid_def by blast
qed

text \<open>The value of a rounding: a whole multiple of a power of two on the grid, with the sign of the argument.\<close>

lemma round_double_shape:
  assumes "r \<noteq> 0"
  obtains m e overflow where "0 \<le> m" "- 1074 \<le> e"
    "round_double r = (if overflow then (if r < 0 then NegInf else PosInf)
           else Fin (if r < 0 then - (of_int m * 2 powi e) else of_int m * 2 powi e))"
    "on_grid r \<longrightarrow> 1 \<le> m"
proof -
  define a where "a = \<bar>r\<bar>"
  define e where "e = max (floor_log2 a - 52) (- 1074)"
  define m where "m = round_half_even (a / 2 powi e)"
  define overflow where "overflow \<longleftrightarrow> 971 < e \<or> (e = 971 \<and> 9007199254740992 \<le> m)"
  have a: "0 < a" using assms by (simp add: a_def)
  have rd: "round_double r = (if overflow then (if r < 0 then NegInf else PosInf)
           else Fin (if r < 0 then - (of_int m * 2 powi e) else of_int m * 2 powi e))"
    unfolding round_double_def Let_def a_def [symmetric] e_def [symmetric] pow2_eq [of e]
      m_def [symmetric] overflow_def [symmetric]
    using assms by (simp only: if_False)
  have "(of_int 0 :: rat) \<le> a / 2 powi e" using a by simp
  then have m0: "0 \<le> m" unfolding m_def by (rule round_half_even_ge)
  have e: "- 1074 \<le> e" by (simp add: e_def)
  have m1: "1 \<le> m" if "on_grid r"
  proof -
    from that obtain k :: int where k: "r = of_int k * ulp_min" unfolding on_grid_def by blast
    have k0: "k \<noteq> 0" using assms k by auto
    have ak: "a = of_int \<bar>k\<bar> * ulp_min"
      unfolding a_def k using ulp_min_pos by (simp add: abs_mult)
    have "2 powi e \<le> a"
    proof (cases "floor_log2 a - 52 \<le> - 1074")
      case True
      then have e1: "e = - 1074" by (simp add: e_def)
      have "(1 :: rat) \<le> of_int \<bar>k\<bar>"
        using k0 by (metis int_one_le_iff_zero_less of_int_1_le_iff zero_less_abs_iff)
      then have "1 * ulp_min \<le> of_int \<bar>k\<bar> * ulp_min"
        using ulp_min_pos by (intro mult_right_mono) simp_all
      then show ?thesis
        unfolding ak e1 ulp_min_def pow2_eq by (simp only: mult_1)
    next
      case False
      then have "e = floor_log2 a - 52" by (simp add: e_def)
      then have "(2 :: rat) powi e \<le> 2 powi floor_log2 a" by (intro powi_mono) simp
      also have "\<dots> \<le> a" by (rule floor_log2_le [OF a])
      finally show ?thesis .
    qed
    then have "(of_int 1 :: rat) \<le> a / 2 powi e" by (simp add: le_divide_eq)
    then show ?thesis unfolding m_def by (rule round_half_even_ge)
  qed
  show thesis
    by (rule that [of m e overflow]) (use m0 e rd m1 in blast)+
qed

lemma round_double_grid:
  assumes "round_double r = Fin v"
  shows "on_grid v"
proof (cases "r = 0")
  case True
  with assms show ?thesis by (simp add: round_double_def on_grid_0)
next
  case False
  then obtain m e overflow where e: "- 1074 \<le> e"
    and rd: "round_double r = (if overflow then (if r < 0 then NegInf else PosInf)
           else Fin (if r < 0 then - (of_int m * 2 powi e) else of_int m * 2 powi e))"
    by (rule round_double_shape)
  from assms rd have "v = (if r < 0 then - (of_int m * 2 powi e) else of_int m * 2 powi e)"
    by (simp split: if_splits)
  then show ?thesis
    using on_grid_scaled [OF e, of m] on_grid_minus [OF on_grid_scaled [OF e, of m]] by simp
qed

text \<open>On the grid a rounding keeps the sign and is never \<open>NaN\<close>.\<close>

lemma round_double_sign:
  assumes "on_grid z"
  shows "(z = 0 \<longrightarrow> round_double z = Fin 0)
    \<and> (0 < z \<longrightarrow> round_double z = PosInf \<or> (\<exists>v. 0 < v \<and> round_double z = Fin v))
    \<and> (z < 0 \<longrightarrow> round_double z = NegInf \<or> (\<exists>v. v < 0 \<and> round_double z = Fin v))"
proof (cases "z = 0")
  case True
  then show ?thesis by (simp add: round_double_def)
next
  case False
  then obtain m e overflow where m: "on_grid z \<longrightarrow> 1 \<le> m"
    and rd: "round_double z = (if overflow then (if z < 0 then NegInf else PosInf)
           else Fin (if z < 0 then - (of_int m * 2 powi e) else of_int m * 2 powi e))"
    by (rule round_double_shape)
  from m assms have "1 \<le> m" by simp
  then have "(0 :: rat) < of_int m" by simp
  then have pos: "(0 :: rat) < of_int m * 2 powi e"
    by (intro mult_pos_pos) simp_all
  show ?thesis
    using False pos unfolding rd by auto
qed

subsection \<open>Arithmetic on doubles\<close>

lemma js_number_grid: "js_number x \<Longrightarrow> grid_number x"
  by (cases x) (auto simp: js_number_def grid_number_def intro: round_double_grid)


text \<open>The sign of a difference of two doubles is that of the exact difference.\<close>

lemma sub_Fin_sign:
  assumes "on_grid x" "on_grid y"
  shows "(x = y \<longrightarrow> num_sub (Fin x) (Fin y) = Fin 0)
    \<and> (y < x \<longrightarrow> num_sub (Fin x) (Fin y) = PosInf \<or> (\<exists>v. 0 < v \<and> num_sub (Fin x) (Fin y) = Fin v))
    \<and> (x < y \<longrightarrow> num_sub (Fin x) (Fin y) = NegInf \<or> (\<exists>v. v < 0 \<and> num_sub (Fin x) (Fin y) = Fin v))"
proof -
  have s: "num_sub (Fin x) (Fin y) = round_double (x - y)"
    by (simp add: num_sub_def)
  show ?thesis
    unfolding s using round_double_sign [OF on_grid_diff [OF assms]] by simp
qed




subsection \<open>Outlier filter\<close>

lemma math_floor_quarter: "math_floor (of_nat n / 4) = n div 4"
  unfolding math_floor_def
  by (metis floor_divide_of_nat_eq nat_int of_nat_numeral)

lemma math_floor_three_quarters: "math_floor (of_nat n * (3 / 4)) = (n * 3) div 4"
proof -
  have "(of_nat n :: rat) * (3 / 4) = of_nat (n * 3) / of_nat 4" by simp
  then show ?thesis
    unfolding math_floor_def
    by (metis floor_divide_of_nat_eq nat_int)
qed

text \<open>On numbers other than \<open>NaN\<close> the comparator \<^verbatim>\<open>(a, b) => a - b\<close> agrees with the ascending order.\<close>

lemma cmp_sub_key:
  assumes "grid_number a" "a \<noteq> NaN" "grid_number b" "b \<noteq> NaN"
  shows "cmp_le0 (num_sub a b) \<longleftrightarrow> num_key a \<le> num_key b"
proof (cases a; cases b)
  fix x y assume ab: "a = Fin x" "b = Fin y"
  with assms have g: "on_grid x" "on_grid y" by (simp_all add: grid_number_def)
  consider "x = y" | "y < x" | "x < y" by linarith
  then show ?thesis
    using sub_Fin_sign [OF g] unfolding ab
    by cases (auto simp: cmp_le0_def num_le_def num_key_def)
qed (use assms in \<open>auto simp: cmp_le0_def num_le_def num_key_def num_sub_def\<close>)

lemma insort_by_key:
  assumes "grid_number x" "x \<noteq> NaN" "\<forall>y \<in> set ys. grid_number y \<and> y \<noteq> NaN"
  shows "insort_by (\<lambda>a b. num_sub a b) x ys = insort_key num_key x ys"
  using assms(3)
proof (induction ys)
  case Nil
  then show ?case by simp
next
  case (Cons y ys)
  then have "cmp_le0 (num_sub x y) \<longleftrightarrow> num_key x \<le> num_key y"
    using assms(1,2) by (intro cmp_sub_key) simp_all
  with Cons show ?case by simp
qed

lemma array_sort_ascending:
  assumes "\<forall>x \<in> set xs. grid_number x \<and> x \<noteq> NaN"
  shows "array_sort (\<lambda>a b. num_sub a b) xs = ascending xs"
  using assms
proof (induction xs)
  case Nil
  then show ?case by (simp add: array_sort_def ascending_def)
next
  case (Cons x xs)
  then have ih: "foldr (insort_by (\<lambda>a b. num_sub a b)) xs [] = sort_key num_key xs"
    by (simp add: array_sort_def ascending_def)
  have "insort_by (\<lambda>a b. num_sub a b) x (sort_key num_key xs) = insort_key num_key x (sort_key num_key xs)"
    using Cons.prems by (intro insort_by_key) simp_all
  then show ?case
    by (simp add: array_sort_def ascending_def ih)
qed

text \<open>
  The filter and the reference agree on fewer than 4 records, and on records whose prices are
  numbers.
\<close>

lemma cleanseOutliers_reference:
  assumes "length data < 4 \<or> (\<forall>d \<in> set data. grid_number (usdPrice d) \<and> usdPrice d \<noteq> NaN)"
  shows "(cleansed (cleanseOutliers data), outlierCount (cleanseOutliers data)) = iqr_reference data"
proof (cases "length data < 4")
  case True
  then show ?thesis by (simp add: cleanseOutliers_def iqr_reference_def)
next
  case False
  with assms have num: "\<forall>x \<in> set (map usdPrice data). grid_number x \<and> x \<noteq> NaN" by simp
  define vs where "vs = ascending (map usdPrice data)"
  have len: "length vs = length data" by (simp add: vs_def ascending_def)
  have vals: "array_sort (\<lambda>a b. num_sub a b) (map usdPrice data) = vs"
    unfolding vs_def by (rule array_sort_ascending [OF num])
  have i1: "length data div 4 < length data" and i3: "length data * 3 div 4 < length data"
    using False by simp_all
  have q1: "array_get vs (length data div 4) = vs ! (length data div 4)"
    and q3: "array_get vs (length data * 3 div 4) = vs ! (length data * 3 div 4)"
    using i1 i3 by (simp_all add: array_get_def len)
  have band: "iqr_band data
      = (num_sub (vs ! (length data div 4))
           (num_mul (Fin (3 / 2)) (num_sub (vs ! (length data * 3 div 4)) (vs ! (length data div 4)))),
         num_add (vs ! (length data * 3 div 4))
           (num_mul (Fin (3 / 2)) (num_sub (vs ! (length data * 3 div 4)) (vs ! (length data div 4)))))"
    unfolding iqr_band_def Let_def vs_def [symmetric] len ..
  have c: "cleanseOutliers data
      = \<lparr>cleansed = filter (in_band (iqr_band data)) data,
         outlierCount = int (length data) - int (length (filter (in_band (iqr_band data)) data))\<rparr>"
    using False
    unfolding cleanseOutliers_def Let_def vals length_map len math_floor_quarter
      math_floor_three_quarters q1 q3 band in_band_def [abs_def] num_ge_def fst_conv snd_conv
    by (simp only: if_False)
  show ?thesis
    unfolding c iqr_reference_def Let_def using False by simp
qed

lemma numeric_prices_grid:
  assumes "numeric_prices data"
  shows "\<forall>d \<in> set data. grid_number (usdPrice d) \<and> usdPrice d \<noteq> NaN"
  using assms by (auto simp: numeric_prices_def list_all_iff intro: js_number_grid)

text \<open>
  Claim C1, amended. On records whose prices are numbers (doubles or infinities, not \<open>NaN\<close>),
  \<open>cleanseOutliers\<close> is the reference IQR filter: fewer than 4 records come back unchanged
  with count 0; otherwise the quartiles are read from the ascending price series at the
  indices \<open>n div 4\<close> and \<open>n * 3 div 4\<close>, exactly the records inside the closed band are kept
  in their order, and the count is the number of records dropped. The band is computed in
  the arithmetic of doubles on both sides.
\<close>

theorem cleanseOutliers_iqr_reference:
  assumes "numeric_prices data"
  shows "(cleansed (cleanseOutliers data), outlierCount (cleanseOutliers data)) = iqr_reference data"
  by (rule cleanseOutliers_reference) (use numeric_prices_grid [OF assms] in blast)

text \<open>
  The instance of section 8 of the specification: of the prices 10, 11, 12, 13, 1000 exactly
  the last one is removed. And an instance where the rounding of the band decides: for the
  prices 1, 1.6, 1.8, 2 the lower bound is the double just above 1, and the record with the
  price 1 is removed.
\<close>

theorem cleanseOutliers_iqr_reference_witness:
  "numeric_prices (map priced [10, 11, 12, 13, 1000])
   \<and> iqr_reference (map priced [10, 11, 12, 13, 1000]) = (map priced [10, 11, 12, 13], 1)
   \<and> (cleansed (cleanseOutliers (map priced [10, 11, 12, 13, 1000])),
      outlierCount (cleanseOutliers (map priced [10, 11, 12, 13, 1000])))
     = iqr_reference (map priced [10, 11, 12, 13, 1000])
   \<and> numeric_prices rounded_band
   \<and> fst (iqr_band rounded_band) = Fin (1 + 1 / 2 ^ 52)
   \<and> cleansed (cleanseOutliers rounded_band) = drop 1 rounded_band"
proof -
  have h: "numeric_prices (map priced [10, 11, 12, 13, 1000])"
    by code_simp
  have r: "iqr_reference (map priced [10, 11, 12, 13, 1000]) = (map priced [10, 11, 12, 13], 1)"
    by code_simp
  have h2: "numeric_prices rounded_band"
    by code_simp
  have b: "fst (iqr_band rounded_band) = Fin (1 + 1 / 2 ^ 52)"
    by code_simp
  have r2: "iqr_reference rounded_band = (drop 1 rounded_band, 1)"
    by code_simp
  show ?thesis
    using h r h2 b r2 cleanseOutliers_iqr_reference [OF h] cleanseOutliers_iqr_reference [OF h2]
    by simp
qed

text \<open>
  Claim C1 as stated fails on a list with a price that is \<open>NaN\<close>. The two lists below hold
  the same prices, \<open>NaN\<close>, 1, 2 and 3, so that the ascending series and the band of the claim
  are the same for both; but the comparator leaves each list as it is, the quartiles are
  read at the positions 1 and 3 of the unsorted list, and the filter keeps the three
  numbers of the first list and nothing of the second. The first result is also not that
  of the reference filter.
\<close>

theorem cleanseOutliers_nan_position:
  "mset (map usdPrice nan_first) = mset (map usdPrice nan_second)
   \<and> cleanseOutliers nan_first = \<lparr>cleansed = map priced [1, 2, 3], outlierCount = 1\<rparr>
   \<and> cleanseOutliers nan_second = \<lparr>cleansed = [], outlierCount = 4\<rparr>
   \<and> (cleansed (cleanseOutliers nan_first), outlierCount (cleanseOutliers nan_first))
       \<noteq> iqr_reference nan_first"
proof -
  have m: "mset (map usdPrice nan_first) = mset (map usdPrice nan_second)"
    by (simp add: nan_first_def nan_second_def)
  have a: "cleanseOutliers nan_first = \<lparr>cleansed = map priced [1, 2, 3], outlierCount = 1\<rparr>"
    by code_simp
  have b: "cleanseOutliers nan_second = \<lparr>cleansed = [], outlierCount = 4\<rparr>"
    by code_simp
  have c: "iqr_reference nan_first = ([], 4)"
    by code_simp
  show ?thesis unfolding a c using m b by simp
qed

text \<open>
  Claim C6 as stated fails. For the prices 0, 0, 0, 0, 0, 1, 4, 100 the first pass has
  \<open>Q1 = 0\<close>, \<open>Q3 = 4\<close> and the band \<open>[-6, 10]\<close>, so it removes 100; on the seven records
  left the quartiles are \<open>Q1 = 0\<close>, \<open>Q3 = 1\<close>, the band is \<open>[-1.5, 2.5]\<close>, and the second
  pass removes 4 with count 1. Every number here is a double and no operation rounds.
\<close>

theorem cleanseOutliers_not_idempotent:
  "cleansed (cleanseOutliers (map priced [0, 0, 0, 0, 0, 1, 4, 100])) = map priced [0, 0, 0, 0, 0, 1, 4]
   \<and> cleanseOutliers (cleansed (cleanseOutliers (map priced [0, 0, 0, 0, 0, 1, 4, 100])))
     = \<lparr>cleansed = map priced [0, 0, 0, 0, 0, 1], outlierCount = 1\<rparr>
   \<and> cleanseOutliers (cleansed (cleanseOutliers (map priced [0, 0, 0, 0, 0, 1, 4, 100])))
     \<noteq> \<lparr>cleansed = cleansed (cleanseOutliers (map priced [0, 0, 0, 0, 0, 1, 4, 100])), outlierCount = 0\<rparr>"
proof -
  have a: "cleansed (cleanseOutliers (map priced [0, 0, 0, 0, 0, 1, 4, 100])) = map priced [0, 0, 0, 0, 0, 1, 4]"
    by code_simp
  have b: "cleanseOutliers (map priced [0, 0, 0, 0, 0, 1, 4])
     = \<lparr>cleansed = map priced [0, 0, 0, 0, 0, 1], outlierCount = 1\<rparr>"
    by code_simp
  show ?thesis unfolding a b by simp
qed

text \<open>What the first pass returns has fewer than 4 records or no price that is \<open>NaN\<close>.\<close>

lemma cleansed_numeric:
  assumes "js_prices data"
  shows "length (cleansed (cleanseOutliers data)) < 4
    \<or> (\<forall>d \<in> set (cleansed (cleanseOutliers data)). grid_number (usdPrice d) \<and> usdPrice d \<noteq> NaN)"
proof (cases "length data < 4")
  case True
  then show ?thesis by (simp add: cleanseOutliers_def)
next
  case False
  have "grid_number (usdPrice d) \<and> usdPrice d \<noteq> NaN" if "d \<in> set (cleansed (cleanseOutliers data))" for d
  proof -
    from that False have d: "d \<in> set data" and "\<exists>b. num_ge (usdPrice d) b"
      by (auto simp: cleanseOutliers_def Let_def)
    then have "usdPrice d \<noteq> NaN" by (auto simp: num_ge_def num_le_def)
    moreover have "grid_number (usdPrice d)"
      using assms d by (auto simp: js_prices_def list_all_iff intro: js_number_grid)
    ultimately show ?thesis by simp
  qed
  then show ?thesis by blast
qed

lemma iqr_reference_fixed:
  "iqr_reference c = (c, 0) \<longleftrightarrow> length c < 4 \<or> list_all (in_band (iqr_band c)) c"
proof (cases "length c < 4")
  case True
  then show ?thesis by (simp add: iqr_reference_def)
next
  case False
  have "filter P c = c \<and> int (length c) - int (length (filter P c)) = 0 \<longleftrightarrow> list_all P c" for P
    by (auto simp: filter_id_conv list_all_iff)
  then show ?thesis
    using False by (simp add: iqr_reference_def Let_def)
qed

text \<open>
  Claim C6, amended. A second application of \<open>cleanseOutliers\<close>, to the cleansed list \<open>c\<close> of
  a first one, is the reference IQR filter of \<open>c\<close>: the quartiles and the band are computed
  anew from \<open>c\<close>. So it returns \<open>c\<close> unchanged with count 0 exactly when \<open>c\<close> has fewer than
  4 records or every price of \<open>c\<close> lies in the band of \<open>c\<close>; otherwise it removes the
  records of \<open>c\<close> outside that band and counts them.
\<close>

theorem cleanseOutliers_twice:
  fixes data :: "HistoricalData list"
  defines "c \<equiv> cleansed (cleanseOutliers data)"
  defines "r \<equiv> cleanseOutliers (cleansed (cleanseOutliers data))"
  assumes js: "js_prices data"
  shows "(cleansed r, outlierCount r) = iqr_reference c
    \<and> (r = \<lparr>cleansed = c, outlierCount = 0\<rparr> \<longleftrightarrow> length c < 4 \<or> list_all (in_band (iqr_band c)) c)"
proof -
  have "length c < 4 \<or> (\<forall>d \<in> set c. grid_number (usdPrice d) \<and> usdPrice d \<noteq> NaN)"
    unfolding c_def by (rule cleansed_numeric [OF js])
  then have ref: "(cleansed r, outlierCount r) = iqr_reference c"
    unfolding r_def c_def [symmetric] by (rule cleanseOutliers_reference)
  have "r = \<lparr>cleansed = c, outlierCount = 0\<rparr> \<longleftrightarrow> (cleansed r, outlierCount r) = (c, 0)"
    by (cases r) simp
  also have "\<dots> \<longleftrightarrow> length c < 4 \<or> list_all (in_band (iqr_band c)) c"
    unfolding ref by (rule iqr_reference_fixed)
  finally show ?thesis using ref by simp
qed

text \<open>
  The instance of section 8 of the specification. The first pass removes 1000 from the prices
  10, 11, 12, 13, 1000; the band of the four records left is \<open>[8, 16]\<close> and holds all of
  them, so the second pass returns them with count 0.
\<close>

theorem cleanseOutliers_twice_witness:
  "js_prices (map priced [10, 11, 12, 13, 1000])
   \<and> cleanseOutliers (map priced [10, 11, 12, 13, 1000])
       = \<lparr>cleansed = map priced [10, 11, 12, 13], outlierCount = 1\<rparr>
   \<and> iqr_band (map priced [10, 11, 12, 13]) = (Fin 8, Fin 16)
   \<and> list_all (in_band (Fin 8, Fin 16)) (map priced [10, 11, 12, 13])
   \<and> cleanseOutliers (cleansed (cleanseOutliers (map priced [10, 11, 12, 13, 1000])))
       = \<lparr>cleansed = map priced [10, 11, 12, 13], outlierCount = 0\<rparr>"
proof -
  have h: "js_prices (map priced [10, 11, 12, 13, 1000])"
    by code_simp
  have a: "cleanseOutliers (map priced [10, 11, 12, 13, 1000])
       = \<lparr>cleansed = map priced [10, 11, 12, 13], outlierCount = 1\<rparr>"
    by code_simp
  have b: "iqr_band (map priced [10, 11, 12, 13]) = (Fin 8, Fin 16)"
    by code_simp
  have l: "list_all (in_band (Fin 8, Fin 16)) (map priced [10, 11, 12, 13])"
    by code_simp
  show ?thesis
    using h a b l cleanseOutliers_twice [OF h] by simp
qed

subsection \<open>Decoders on input without data rows\<close>

lemma row_objects_no_rows:
  assumes "\<forall>l \<in> set (drop 1 (split_on newline csvText)). trim l = []"
  shows "row_objects normalise csvText = []"
proof -
  have "filter (\<lambda>l. trim l \<noteq> []) (drop 1 (split_on newline csvText)) = []"
    using assms by (simp add: filter_empty_conv)
  then show ?thesis by (simp add: row_objects_def Let_def)
qed

text \<open>
  Claim C8. When no line after the first is non-blank, which includes a text of a single
  line, each of the three decoders returns the empty list; none of them has an error path.
\<close>

theorem decoders_empty_without_rows:
  assumes "\<forall>l \<in> set (drop 1 (split_on newline csvText)). trim l = []"
  shows "parseCSV randomUUID now csvText = []
    \<and> parseNegotiationCSV csvText = []
    \<and> parseForecastCSV csvText = []"
  by (simp add: parseCSV_def parseNegotiationCSV_def parseForecastCSV_def
      row_objects_no_rows [OF assms] enumerate_eq_zip)

text \<open>A header followed by a blank line, and a header alone.\<close>

theorem decoders_empty_without_rows_witness:
  "map trim (drop 1 (split_on newline header_only)) = [[], []]
   \<and> parseCSV fixed_uuid fixed_now header_only = []
   \<and> parseNegotiationCSV header_only = []
   \<and> parseForecastCSV header_only = []
   \<and> drop 1 (split_on newline ''Part Number'') = []
   \<and> parseCSV fixed_uuid fixed_now ''Part Number'' = []"
proof -
  have t: "map trim (drop 1 (split_on newline header_only)) = [[], []]"
    by code_simp
  have t2: "drop 1 (split_on newline ''Part Number'') = []"
    by code_simp
  have h: "\<forall>l \<in> set (drop 1 (split_on newline header_only)). trim l = []"
  proof
    fix l assume "l \<in> set (drop 1 (split_on newline header_only))"
    then have "trim l \<in> set (map trim (drop 1 (split_on newline header_only)))" by simp
    then show "trim l = []" unfolding t by simp
  qed
  have h2: "\<forall>l \<in> set (drop 1 (split_on newline ''Part Number'')). trim l = []"
    unfolding t2 by simp
  show ?thesis
    using t t2 decoders_empty_without_rows [OF h] decoders_empty_without_rows [OF h2]
    by blast
qed

subsection \<open>Groups of parseForecastCSV\<close>

lemma add_point_groups:
  assumes "\<forall>(k, res) \<in> set groups. forecast res \<noteq> [] \<and> summary res = zero_summary"
  shows "\<forall>(k, res) \<in> set (add_point p groups). forecast res \<noteq> [] \<and> summary res = zero_summary"
  using assms
  by (auto simp: add_point_def Let_def new_group_def zero_summary_def split: if_splits)

lemma fold_add_point_groups:
  assumes "\<forall>(k, res) \<in> set groups. forecast res \<noteq> [] \<and> summary res = zero_summary"
  shows "\<forall>(k, res) \<in> set (fold add_point ps groups). forecast res \<noteq> [] \<and> summary res = zero_summary"
  using assms
proof (induction ps arbitrary: groups)
  case Nil
  then show ?case by simp
next
  case (Cons p ps)
  show ?case
    unfolding fold_simps
    by (rule Cons.IH) (rule add_point_groups [OF Cons.prems])
qed

lemma forecast_summarise: "forecast (summarise res) = forecast res"
  by (simp add: summarise_def Let_def)

lemma parseForecastCSV_groups:
  assumes "r \<in> set (parseForecastCSV csvText)"
  obtains res where "r = summarise res" "forecast res \<noteq> []" "summary res = zero_summary"
proof -
  let ?groups = "fold add_point (map forecast_row (row_objects (\<lambda>h. toLowerCase (trim h)) csvText)) []"
  from assms obtain k res where kr: "(k, res) \<in> set ?groups" and r: "r = summarise res"
    by (auto simp: parseForecastCSV_def Let_def)
  have "\<forall>(k, res) \<in> set ?groups. forecast res \<noteq> [] \<and> summary res = zero_summary"
    by (rule fold_add_point_groups) simp
  with kr have "forecast res \<noteq> []" "summary res = zero_summary" by auto
  with r that show thesis by blast
qed

text \<open>
  Claim C10. Every result of \<open>parseForecastCSV\<close> holds at least one point, so the two
  averages of its summary are sums divided by a count that is not zero.
\<close>

theorem parseForecastCSV_forecast_nonempty:
  "\<forall>r \<in> set (parseForecastCSV csvText).
     1 \<le> length (forecast r)
     \<and> avgPredictedPrice (summary r)
         = num_div (foldl num_add (Fin 0) (map predictedPrice (forecast r))) (Fin (of_nat (length (forecast r))))
     \<and> avgPredictedLeadTime (summary r)
         = num_div (foldl num_add (Fin 0) (map predictedLeadTime (forecast r))) (Fin (of_nat (length (forecast r))))
     \<and> Fin (of_nat (length (forecast r))) \<noteq> Fin 0"
proof
  fix r assume "r \<in> set (parseForecastCSV csvText)"
  then obtain res where r: "r = summarise res" and ne: "forecast res \<noteq> []"
    by (rule parseForecastCSV_groups)
  from ne have "1 \<le> length (forecast res)" by (cases "forecast res") simp_all
  then show "1 \<le> length (forecast r)
     \<and> avgPredictedPrice (summary r)
         = num_div (foldl num_add (Fin 0) (map predictedPrice (forecast r))) (Fin (of_nat (length (forecast r))))
     \<and> avgPredictedLeadTime (summary r)
         = num_div (foldl num_add (Fin 0) (map predictedLeadTime (forecast r))) (Fin (of_nat (length (forecast r))))
     \<and> Fin (of_nat (length (forecast r))) \<noteq> Fin 0"
    unfolding r using ne by (simp add: summarise_def Let_def)
qed

text \<open>The two rows of section 8 of the specification: one key, two dates.\<close>

lemma two_dates_eval:
  "parseForecastCSV two_dates
     = [\<lparr>partNumber = Some ''SKU-1001'', vendor = Some ''GlobalLogistics Inc'', country = Some ''USA'',
         forecast =
           [\<lparr>date' = Some ''2024-01-01'', predictedPrice = Fin 140, predictedLeadTime = Fin 15,
              confidenceIntervalUpper = Fin 145, confidenceIntervalLower = Fin 135\<rparr>,
            \<lparr>date' = Some ''2024-02-01'', predictedPrice = Fin 150, predictedLeadTime = Fin 18,
              confidenceIntervalUpper = Fin 155, confidenceIntervalLower = Fin 145\<rparr>],
         summary =
           \<lparr>avgPredictedPrice = Fin 145, avgPredictedLeadTime = Fin (33 / 2),
            priceTrend = Up, leadTimeTrend = Stable, optimizedOrderQuantity = Fin 0\<rparr>\<rparr>]"
  by code_simp

theorem parseForecastCSV_forecast_nonempty_witness:
  "parseForecastCSV two_dates \<noteq> []
   \<and> length (forecast (hd (parseForecastCSV two_dates))) = 2
   \<and> avgPredictedPrice (summary (hd (parseForecastCSV two_dates))) = Fin ((140 + 150) / 2)
   \<and> avgPredictedLeadTime (summary (hd (parseForecastCSV two_dates))) = Fin ((15 + 18) / 2)"
  using parseForecastCSV_forecast_nonempty [of two_dates] unfolding two_dates_eval by simp


lemma map_enumerate_snd: "map (\<lambda>(i, x). g x) (enumerate n xs) = map g xs"
  by (induction xs arbitrary: n) simp_all









subsection \<open>Lenient numeric parsing\<close>

lemma parse_zero: "parseFloat ''0'' = Fin 0" "parseInt ''0'' = Fin 0"
  by code_simp+

lemma lenient1:
  assumes "parse ''0'' = Fin 0"
  shows "parse (or_zero a) = lenient parse [a]"
  using assms by (cases a) (auto simp: or_zero_def lenient_def blank_def js_string_def)

lemma lenient2:
  assumes "parse ''0'' = Fin 0"
  shows "parse (or_zero (or_else a b)) = lenient parse [a, b]"
  using assms
  by (cases a; cases b) (auto simp: or_zero_def or_else_def lenient_def blank_def js_string_def)

lemma lenient3:
  assumes "parse ''0'' = Fin 0"
  shows "parse (or_zero (or_else (or_else a b) c)) = lenient parse [a, b, c]"
  using assms
  by (cases a; cases b; cases c) (auto simp: or_zero_def or_else_def lenient_def blank_def js_string_def)

lemmas float1 = lenient1 [of parseFloat, OF parse_zero(1)]
lemmas float2 = lenient2 [of parseFloat, OF parse_zero(1)]
lemmas float3 = lenient3 [of parseFloat, OF parse_zero(1)]
lemmas int1 = lenient1 [of parseInt, OF parse_zero(2)]
lemmas int2 = lenient2 [of parseInt, OF parse_zero(2)]
lemmas int3 = lenient3 [of parseInt, OF parse_zero(2)]

lemma lenient_blank: "list_all blank aliases \<Longrightarrow> lenient parse aliases = Fin 0"
  by (simp add: lenient_def list_all_iff filter_empty_conv[THEN iffD2])

lemma round_double_not_NaN: "round_double r \<noteq> NaN"
  by (simp add: round_double_def Let_def)

text \<open>\<open>parseFloat\<close> and \<open>parseInt\<close> give \<open>NaN\<close> exactly on the strings without a numeric prefix.\<close>

lemma parseFloat_NaN_iff: "parseFloat s = NaN \<longleftrightarrow> \<not> float_prefix s"
proof -
  obtain neg u where nu: "read_sign (dropWhile is_white s) = (neg, u)"
    by (cases "read_sign (dropWhile is_white s)")
  show ?thesis
  proof (cases "prefix ''Infinity'' u")
    case True
    then show ?thesis by (simp add: parseFloat_def float_prefix_def nu)
  next
    case False
    show ?thesis
    proof (cases u)
      case Nil
      with False show ?thesis by (simp add: parseFloat_def float_prefix_def nu)
    next
      case (Cons c cs)
      show ?thesis
      proof (cases "is_digit c")
        case True
        with False Cons show ?thesis
          by (simp add: parseFloat_def float_prefix_def nu Let_def round_double_not_NaN split: prod.splits)
      next
        case nd: False
        have dot: "\<not> is_digit (CHR ''.'')" by (simp add: is_digit_def)
        show ?thesis
        proof (cases "c = CHR ''.''")
          case True
          have "takeWhile is_digit cs = [] \<longleftrightarrow> (case cs of [] \<Rightarrow> True | d # _ \<Rightarrow> \<not> is_digit d)"
            by (cases cs) simp_all
          with False Cons True dot show ?thesis
            by (simp add: parseFloat_def float_prefix_def nu Let_def round_double_not_NaN split: list.splits)
        next
          case nodot: False
          with False Cons nd show ?thesis
            by (simp add: parseFloat_def float_prefix_def nu Let_def)
        qed
      qed
    qed
  qed
qed

lemma parseInt_NaN_iff: "parseInt s = NaN \<longleftrightarrow> \<not> int_prefix s"
proof -
  obtain neg u where nu: "read_sign (dropWhile is_white s) = (neg, u)"
    by (cases "read_sign (dropWhile is_white s)")
  have tw: "takeWhile P xs = [] \<longleftrightarrow> (case xs of [] \<Rightarrow> True | x # _ \<Rightarrow> \<not> P x)" for P and xs :: string
    by (cases xs) simp_all
  show ?thesis
    by (simp add: parseInt_def int_prefix_def nu Let_def round_double_not_NaN tw split: list.splits)
qed

subsection \<open>The points of parseForecastCSV\<close>

lemma point_forecast_row: "point (forecast_row obj) = lenient_point obj"
  by (simp add: forecast_row_def lenient_point_def float1 int1)

lemma mset_points_push:
  assumes "distinct (map fst groups)" "key \<in> set (map fst groups)"
  shows "mset (concat (map (\<lambda>(k, res). forecast res)
           (map (\<lambda>(k, res). if k = key then (k, res\<lparr>forecast := forecast res @ [x]\<rparr>) else (k, res)) groups)))
       = mset (concat (map (\<lambda>(k, res). forecast res) groups)) + {#x#}"
  using assms
proof (induction groups)
  case Nil
  then show ?case by simp
next
  case (Cons g groups)
  obtain k res where g: "g = (k, res)" by (cases g)
  show ?case
  proof (cases "k = key")
    case True
    with Cons.prems g have "key \<notin> set (map fst groups)" by simp
    then have "map (\<lambda>(k, res). if k = key then (k, res\<lparr>forecast := forecast res @ [x]\<rparr>) else (k, res)) groups = groups"
      by (induction groups) auto
    with True g show ?thesis by simp
  next
    case False
    with Cons.prems g have "distinct (map fst groups)" "key \<in> set (map fst groups)" by auto
    from Cons.IH [OF this] False g show ?thesis by simp
  qed
qed

lemma add_point_keys:
  "map fst (add_point p groups)
     = (if group_key p \<in> set (map fst groups) then map fst groups else map fst groups @ [group_key p])"
  by (simp add: add_point_def Let_def comp_def case_prod_unfold)

lemma add_point_mset:
  assumes "distinct (map fst groups)"
  shows "distinct (map fst (add_point p groups))
    \<and> mset (concat (map (\<lambda>(k, res). forecast res) (add_point p groups)))
        = mset (concat (map (\<lambda>(k, res). forecast res) groups)) + {#point p#}"
proof -
  define groups1 where "groups1 = (if group_key p \<in> set (map fst groups) then groups
      else groups @ [(group_key p, new_group p)])"
  have d: "distinct (map fst groups1)" and k: "group_key p \<in> set (map fst groups1)"
    using assms by (auto simp: groups1_def)
  have same: "mset (concat (map (\<lambda>(k, res). forecast res) groups1))
      = mset (concat (map (\<lambda>(k, res). forecast res) groups))"
    by (simp add: groups1_def new_group_def)
  have a: "add_point p groups
      = map (\<lambda>(k, res). if k = group_key p then (k, res\<lparr>forecast := forecast res @ [point p]\<rparr>) else (k, res)) groups1"
    by (simp add: add_point_def Let_def groups1_def)
  have "distinct (map fst (add_point p groups))"
    using assms by (simp add: add_point_keys)
  moreover have "mset (concat (map (\<lambda>(k, res). forecast res) (add_point p groups)))
        = mset (concat (map (\<lambda>(k, res). forecast res) groups)) + {#point p#}"
    unfolding a mset_points_push [OF d k] same ..
  ultimately show ?thesis by simp
qed

lemma fold_add_point_mset:
  assumes "distinct (map fst groups)"
  shows "mset (concat (map (\<lambda>(k, res). forecast res) (fold add_point ps groups)))
        = mset (concat (map (\<lambda>(k, res). forecast res) groups)) + mset (map point ps)"
  using assms
proof (induction ps arbitrary: groups)
  case Nil
  then show ?case by simp
next
  case (Cons p ps)
  from add_point_mset [OF Cons.prems, of p]
  have d: "distinct (map fst (add_point p groups))"
    and m: "mset (concat (map (\<lambda>(k, res). forecast res) (add_point p groups)))
        = mset (concat (map (\<lambda>(k, res). forecast res) groups)) + {#point p#}"
    by simp_all
  show ?case
    unfolding fold_simps Cons.IH [OF d] m by simp
qed

text \<open>The points of all results together are, row for row, the points of the data rows.\<close>

lemma parseForecastCSV_all_points:
  "mset (concat (map forecast (parseForecastCSV csvText)))
     = mset (map lenient_point (row_objects (\<lambda>h. toLowerCase (trim h)) csvText))"
proof -
  let ?objs = "row_objects (\<lambda>h. toLowerCase (trim h)) csvText"
  have "map forecast (parseForecastCSV csvText)
      = map (\<lambda>(k, res). forecast res) (fold add_point (map forecast_row ?objs) [])"
    by (simp add: parseForecastCSV_def Let_def comp_def case_prod_unfold forecast_summarise)
  then have "mset (concat (map forecast (parseForecastCSV csvText)))
      = mset (map point (map forecast_row ?objs))"
    using fold_add_point_mset [of "[]" "map forecast_row ?objs"] by simp
  then show ?thesis by (simp add: comp_def point_forecast_row)
qed

text \<open>
  Claim C5, amended. In the records of the three decoders every numeric field of every data
  row is the lenient reading of its alias columns: 0 when every alias column is missing or
  empty, otherwise \<open>parseFloat\<close> or \<open>parseInt\<close> of the first one that is not. For
  \<open>parseCSV\<close> and \<open>parseNegotiationCSV\<close> the records are those of the rows in their order;
  the points that \<open>parseForecastCSV\<close> spreads over its results are, one for each row, those
  of the rows. \<open>parseFloat\<close> and \<open>parseInt\<close> give \<open>NaN\<close>, not 0, exactly on the strings
  without a numeric prefix. The decoders have no error path.
\<close>

theorem lenient_numeric_fields:
  "map usdPrice (parseCSV randomUUID now csvText)
     = map (\<lambda>obj. lenient parseFloat [obj ''usd pricing'', obj ''usd price'', obj ''price''])
         (row_objects (\<lambda>h. strip_parens (toLowerCase (trim h))) csvText)
   \<and> map quantity (parseCSV randomUUID now csvText)
     = map (\<lambda>obj. lenient parseInt [obj ''quantity'', obj ''qty''])
         (row_objects (\<lambda>h. strip_parens (toLowerCase (trim h))) csvText)
   \<and> map leadTimeDays (parseCSV randomUUID now csvText)
     = map (\<lambda>obj. lenient parseInt [obj ''lead time days'', obj ''lead time'', obj ''leadtime''])
         (row_objects (\<lambda>h. strip_parens (toLowerCase (trim h))) csvText)
   \<and> map proposedPrice (parseNegotiationCSV csvText)
     = map (\<lambda>obj. lenient parseFloat [obj ''proposed price'', obj ''price''])
         (row_objects (\<lambda>h. toLowerCase (trim h)) csvText)
   \<and> map proposedLeadTime (parseNegotiationCSV csvText)
     = map (\<lambda>obj. lenient parseInt [obj ''proposed lead time'', obj ''lead time''])
         (row_objects (\<lambda>h. toLowerCase (trim h)) csvText)
   \<and> mset (concat (map forecast (parseForecastCSV csvText)))
     = mset (map lenient_point (row_objects (\<lambda>h. toLowerCase (trim h)) csvText))
   \<and> (\<forall>parse aliases. list_all blank aliases \<longrightarrow> lenient parse aliases = Fin 0)
   \<and> (\<forall>parse aliases. \<not> list_all blank aliases \<longrightarrow>
        lenient parse aliases = parse (js_string (hd (filter (\<lambda>v. \<not> blank v) aliases))))
   \<and> (\<forall>s. (parseFloat s = NaN \<longleftrightarrow> \<not> float_prefix s) \<and> (parseInt s = NaN \<longleftrightarrow> \<not> int_prefix s))"
proof -
  have hist: "map f (parseCSV randomUUID now csvText)
      = map (\<lambda>(i, obj). f (historical_row (randomUUID i) (now i) obj))
          (enumerate 0 (row_objects (\<lambda>h. strip_parens (toLowerCase (trim h))) csvText))" for f :: "HistoricalData \<Rightarrow> number"
    unfolding parseCSV_def map_map by (rule map_cong [OF refl]) auto
  have 1: "map usdPrice (parseCSV randomUUID now csvText)
     = map (\<lambda>obj. lenient parseFloat [obj ''usd pricing'', obj ''usd price'', obj ''price''])
         (row_objects (\<lambda>h. strip_parens (toLowerCase (trim h))) csvText)"
    unfolding hist by (simp add: historical_row_def float3 map_enumerate_snd)
  have 2: "map quantity (parseCSV randomUUID now csvText)
     = map (\<lambda>obj. lenient parseInt [obj ''quantity'', obj ''qty''])
         (row_objects (\<lambda>h. strip_parens (toLowerCase (trim h))) csvText)"
    unfolding hist by (simp add: historical_row_def int2 map_enumerate_snd)
  have 3: "map leadTimeDays (parseCSV randomUUID now csvText)
     = map (\<lambda>obj. lenient parseInt [obj ''lead time days'', obj ''lead time'', obj ''leadtime''])
         (row_objects (\<lambda>h. strip_parens (toLowerCase (trim h))) csvText)"
    unfolding hist by (simp add: historical_row_def int3 map_enumerate_snd)
  have 4: "map proposedPrice (parseNegotiationCSV csvText)
     = map (\<lambda>obj. lenient parseFloat [obj ''proposed price'', obj ''price''])
         (row_objects (\<lambda>h. toLowerCase (trim h)) csvText)"
    by (simp add: parseNegotiationCSV_def negotiation_row_def float2 comp_def)
  have 5: "map proposedLeadTime (parseNegotiationCSV csvText)
     = map (\<lambda>obj. lenient parseInt [obj ''proposed lead time'', obj ''lead time''])
         (row_objects (\<lambda>h. toLowerCase (trim h)) csvText)"
    by (simp add: parseNegotiationCSV_def negotiation_row_def int2 comp_def)
  note 6 = parseForecastCSV_all_points [of csvText]
  have 7: "\<forall>parse aliases. list_all blank aliases \<longrightarrow> lenient parse aliases = Fin 0"
    by (simp add: lenient_blank)
  have 8: "\<forall>parse aliases. \<not> list_all blank aliases \<longrightarrow>
        lenient parse aliases = parse (js_string (hd (filter (\<lambda>v. \<not> blank v) aliases)))"
  proof (intro allI impI)
    fix parse :: "string \<Rightarrow> number" and aliases :: "string option list"
    assume "\<not> list_all blank aliases"
    then have "filter (\<lambda>v. \<not> blank v) aliases \<noteq> []"
      by (simp add: filter_empty_conv list_all_iff)
    then show "lenient parse aliases = parse (js_string (hd (filter (\<lambda>v. \<not> blank v) aliases)))"
      by (cases "filter (\<lambda>v. \<not> blank v) aliases") (simp_all add: lenient_def)
  qed
  have 9: "\<forall>s. (parseFloat s = NaN \<longleftrightarrow> \<not> float_prefix s) \<and> (parseInt s = NaN \<longleftrightarrow> \<not> int_prefix s)"
    using parseFloat_NaN_iff parseInt_NaN_iff by blast
  from 1 2 3 4 5 6 7 8 9 show ?thesis by blast
qed

text \<open>
  Two blank alias columns give 0; the strings \<^verbatim>\<open>-abc\<close> and \<^verbatim>\<open>.\<close> have no numeric prefix for
  \<open>parseFloat\<close>, nor \<^verbatim>\<open>.5\<close> and \<^verbatim>\<open>Infinity\<close> for \<open>parseInt\<close>, and are read as \<open>NaN\<close>; the row
  \<^verbatim>\<open>SKU-1,abc,12\<close> has no lead-time column and a lead time of 0.
\<close>

theorem lenient_numeric_fields_witness:
  "list_all blank [None, Some []]
   \<and> lenient parseInt [None, Some []] = Fin 0
   \<and> \<not> list_all blank [None, Some ''12'']
   \<and> lenient parseInt [None, Some ''12''] = parseInt ''12''
   \<and> \<not> float_prefix ''-abc'' \<and> parseFloat ''-abc'' = NaN
   \<and> \<not> float_prefix ''.'' \<and> parseFloat ''.'' = NaN
   \<and> \<not> int_prefix ''.5'' \<and> parseInt ''.5'' = NaN
   \<and> \<not> int_prefix ''Infinity'' \<and> parseInt ''Infinity'' = NaN
   \<and> float_prefix '' 12.5kg'' \<and> parseFloat '' 12.5kg'' \<noteq> NaN
   \<and> map proposedLeadTime (parseNegotiationCSV unparseable_price) = [Fin 0]"
proof -
  have a: "list_all blank [None, Some []]" "\<not> list_all blank [None, Some ''12'']"
    by (simp_all add: blank_def)
  have h: "hd (filter (\<lambda>v. \<not> blank v) [None, Some ''12'']) = Some ''12''"
    by (simp add: blank_def)
  have b: "\<not> float_prefix ''-abc''" "\<not> float_prefix ''.''" "\<not> int_prefix ''.5''"
    "\<not> int_prefix ''Infinity''" "float_prefix '' 12.5kg''"
    by code_simp+
  have c: "map (\<lambda>obj. lenient parseInt [obj ''proposed lead time'', obj ''lead time''])
         (row_objects (\<lambda>h. toLowerCase (trim h)) unparseable_price) = [Fin 0]"
    by code_simp
  show ?thesis
    using a b c h lenient_numeric_fields [where csvText = unparseable_price]
    by (simp add: js_string_def)
qed

text \<open>
  Claim C5 as stated fails: the price column of the row \<^verbatim>\<open>SKU-1,abc,12\<close> is not a number,
  and the record's price is \<open>NaN\<close>, not 0.
\<close>

theorem unparseable_price_not_zero:
  "map usdPrice (parseCSV fixed_uuid fixed_now unparseable_price) = [NaN]
   \<and> map usdPrice (parseCSV fixed_uuid fixed_now unparseable_price) \<noteq> [Fin 0]"
proof -
  have "map usdPrice (parseCSV fixed_uuid fixed_now unparseable_price) = [NaN]"
    by code_simp
  then show ?thesis by simp
qed

subsection \<open>Grouping key\<close>

text \<open>
  Claim C3 at an input where the code departs from it. The rows \<^verbatim>\<open>A|B,C,US\<close> and \<^verbatim>\<open>A,B|C,US\<close>
  have different triples and the same key string \<^verbatim>\<open>A|B|C|US\<close>: \<open>parseForecastCSV\<close> returns
  one result with both points under the triple of the first row.
\<close>

theorem colliding_keys_merged:
  "map (\<lambda>p. (partNumber p, vendor p, country p))
       (map forecast_row (row_objects (\<lambda>h. toLowerCase (trim h)) colliding_keys))
     = [(Some ''A|B'', Some ''C'', Some ''US''), (Some ''A'', Some ''B|C'', Some ''US'')]
   \<and> parseForecastCSV colliding_keys
     = [\<lparr>partNumber = Some ''A|B'', vendor = Some ''C'', country = Some ''US'',
         forecast =
           [\<lparr>date' = Some ''2024-01-01'', predictedPrice = Fin 10, predictedLeadTime = Fin 5,
              confidenceIntervalUpper = Fin 11, confidenceIntervalLower = Fin 9\<rparr>,
            \<lparr>date' = Some ''2024-02-01'', predictedPrice = Fin 20, predictedLeadTime = Fin 7,
              confidenceIntervalUpper = Fin 21, confidenceIntervalLower = Fin 19\<rparr>],
         summary =
           \<lparr>avgPredictedPrice = Fin 15, avgPredictedLeadTime = Fin 6,
            priceTrend = Up, leadTimeTrend = Stable, optimizedOrderQuantity = Fin 0\<rparr>\<rparr>]"
  by code_simp

subsection \<open>Forecast request\<close>

lemma length_insort_by: "length (insort_by cmp x ys) = Suc (length ys)"
  by (induction ys) simp_all

lemma length_array_sort: "length (array_sort cmp xs) = length xs"
  unfolding array_sort_def by (induction xs) (simp_all add: length_insort_by)

lemma length_context_data:
  "length (context_data getTime historicalData filters)
     = length (filter (\<lambda>d. partNumber d = partNumber filters \<and> vendor d = vendor filters
                          \<and> country d = country filters) historicalData)"
  by (simp add: context_data_def length_array_sort)

text \<open>
  Claim C9. With fewer than 3 records of the key, both versions of \<open>getForecastFromAI\<close> end
  in an error and have sent nothing to the engine; with at least 3 they send exactly one
  request.
\<close>

theorem getForecastFromAI_guard:
  fixes historicalData :: "HistoricalData list" and filters :: FilterState
  defines "matching \<equiv> filter (\<lambda>d. partNumber d = partNumber filters \<and> vendor d = vendor filters
                                  \<and> country d = country filters) historicalData"
  shows "(length matching < 3 \<longrightarrow>
           (\<exists>e. getForecastFromAI generateContent json_parse getTime historicalData filters model = (Inl e, []))
           \<and> (\<exists>e. getForecastFromAI2 generateContent json_parse getTime historicalData filters model = (Inl e, [])))
       \<and> (3 \<le> length matching \<longrightarrow>
           length (snd (getForecastFromAI generateContent json_parse getTime historicalData filters model)) = 1
           \<and> length (snd (getForecastFromAI2 generateContent json_parse getTime historicalData filters model)) = 1)"
proof -
  have len: "length (context_data getTime historicalData filters) = length matching"
    by (simp add: length_context_data matching_def)
  have nil: "context_data getTime historicalData filters = [] \<longleftrightarrow> length matching = 0"
    using len by (metis length_0_conv)
  show ?thesis
    by (auto simp: getForecastFromAI_def getForecastFromAI2_def Let_def len nil)
qed

text \<open>Two records of the key, and three.\<close>

theorem getForecastFromAI_guard_witness:
  "length (filter (\<lambda>d. partNumber d = partNumber sample_key \<and> vendor d = vendor sample_key
                        \<and> country d = country sample_key) (map priced [10, 11])) < 3
   \<and> fst (getForecastFromAI silent_engine no_json no_time (map priced [10, 11]) sample_key ''gemini-3-flash-preview'')
       = Inl (Error (Some ''Insufficient Data: At least 3 historical points are required for a reliable AI forecast.''))
   \<and> snd (getForecastFromAI silent_engine no_json no_time (map priced [10, 11]) sample_key ''gemini-3-flash-preview'') = []
   \<and> 3 \<le> length (filter (\<lambda>d. partNumber d = partNumber sample_key \<and> vendor d = vendor sample_key
                        \<and> country d = country sample_key) (map priced [10, 11, 12]))
   \<and> length (snd (getForecastFromAI silent_engine no_json no_time (map priced [10, 11, 12]) sample_key ''gemini-3-flash-preview'')) = 1"
proof -
  have a: "getForecastFromAI silent_engine no_json no_time (map priced [10, 11]) sample_key ''gemini-3-flash-preview''
     = (Inl (Error (Some ''Insufficient Data: At least 3 historical points are required for a reliable AI forecast.'')), [])"
    by code_simp
  have b: "length (filter (\<lambda>d. partNumber d = partNumber sample_key \<and> vendor d = vendor sample_key
                        \<and> country d = country sample_key) (map priced [10, 11])) < 3"
    by code_simp
  have c: "3 \<le> length (filter (\<lambda>d. partNumber d = partNumber sample_key \<and> vendor d = vendor sample_key
                        \<and> country d = country sample_key) (map priced [10, 11, 12]))"
    by code_simp
  show ?thesis
    using b c a
      getForecastFromAI_guard [where historicalData = "map priced [10, 11, 12]" and filters = sample_key
        and generateContent = silent_engine and json_parse = no_json and getTime = no_time
        and model = "''gemini-3-flash-preview''"]
    by simp
qed

subsection \<open>Combination enumeration\<close>

lemma array_from_set_snoc:
  "array_from_set (xs @ [x])
     = (if x \<in> set (array_from_set xs) then array_from_set xs else array_from_set xs @ [x])"
  by (simp add: array_from_set_def)

lemma set_array_from_set: "set (array_from_set xs) = set xs"
  by (induction xs rule: rev_induct) (auto simp: array_from_set_snoc, simp add: array_from_set_def)

lemma distinct_array_from_set: "distinct (array_from_set xs)"
  by (induction xs rule: rev_induct) (simp_all add: array_from_set_snoc, simp add: array_from_set_def)

lemma first_seen_append_in:
  "\<exists>x \<in> set xs. P x \<Longrightarrow> first_seen P (xs @ ys) = first_seen P xs"
  by (auto simp: first_seen_def takeWhile_append)

lemma first_seen_less: "\<exists>x \<in> set xs. P x \<Longrightarrow> first_seen P xs < length xs"
  unfolding first_seen_def by (induction xs) auto

lemma first_seen_append_out:
  "\<forall>x \<in> set xs. \<not> P x \<Longrightarrow> P y \<Longrightarrow> first_seen P (xs @ [y]) = length xs"
  by (simp add: first_seen_def takeWhile_append)

text \<open>The elements of \<open>array_from_set xs\<close> are in the order of their first occurrence in \<open>xs\<close>.\<close>

lemma sorted_array_from_set:
  "sorted_wrt (\<lambda>a b. first_seen (\<lambda>x. x = a) xs < first_seen (\<lambda>x. x = b) xs) (array_from_set xs)"
proof (induction xs rule: rev_induct)
  case Nil
  then show ?case by (simp add: array_from_set_def)
next
  case (snoc x xs)
  let ?R = "\<lambda>ys a b. first_seen (\<lambda>x. x = a) ys < first_seen (\<lambda>x. x = b) ys"
  have old: "sorted_wrt (?R (xs @ [x])) (array_from_set xs)"
  proof (rule sorted_wrt_mono_rel [OF _ snoc.IH])
    fix a b assume "a \<in> set (array_from_set xs)" "b \<in> set (array_from_set xs)" "?R xs a b"
    then show "?R (xs @ [x]) a b"
      by (simp add: set_array_from_set first_seen_append_in)
  qed
  show ?case
  proof (cases "x \<in> set xs")
    case True
    then show ?thesis using old by (simp add: array_from_set_snoc set_array_from_set)
  next
    case False
    have "?R (xs @ [x]) a x" if "a \<in> set xs" for a
    proof -
      have "first_seen (\<lambda>y. y = a) (xs @ [x]) = first_seen (\<lambda>y. y = a) xs"
        using that by (simp add: first_seen_append_in)
      moreover have "first_seen (\<lambda>y. y = a) xs < length xs"
        using that by (simp add: first_seen_less)
      moreover have "first_seen (\<lambda>y. y = x) (xs @ [x]) = length xs"
        using False by (intro first_seen_append_out) auto
      ultimately show ?thesis by simp
    qed
    then show ?thesis
      using old False
      by (simp add: array_from_set_snoc set_array_from_set sorted_wrt_append)
  qed
qed

lemma first_seen_map: "first_seen P (map f xs) = first_seen (\<lambda>x. P (f x)) xs"
  by (simp add: first_seen_def takeWhile_map comp_def)

lemma sorted_array_from_set_map:
  "sorted_wrt (\<lambda>a b. first_seen (\<lambda>d. f d = a) ds < first_seen (\<lambda>d. f d = b) ds)
     (array_from_set (map f ds))"
  using sorted_array_from_set [of "map f ds"] by (simp add: first_seen_map)

lemma sorted_wrt_concat_map:
  assumes "sorted_wrt Q xs"
    and "\<And>x. x \<in> set xs \<Longrightarrow> sorted_wrt R (F x)"
    and "\<And>x y a b. Q x y \<Longrightarrow> a \<in> set (F x) \<Longrightarrow> b \<in> set (F y) \<Longrightarrow> R a b"
  shows "sorted_wrt R (concat (map F xs))"
  using assms
proof (induction xs)
  case Nil
  then show ?case by simp
next
  case (Cons x xs)
  have "sorted_wrt R (concat (map F xs))"
    using Cons.prems by (intro Cons.IH) auto
  moreover have "R a b" if "a \<in> set (F x)" "b \<in> set (concat (map F xs))" for a b
  proof -
    from that(2) obtain y where "y \<in> set xs" "b \<in> set (F y)" by auto
    moreover from this Cons.prems(1) have "Q x y" by simp
    ultimately show ?thesis using Cons.prems(3) that(1) by blast
  qed
  ultimately show ?case
    using Cons.prems(2) by (simp add: sorted_wrt_append)
qed

lemma sorted_wrt_distinct:
  assumes "sorted_wrt R xs" and "\<And>x. \<not> R x x"
  shows "distinct xs"
  using assms by (induction xs) auto

lemma combinations_eq:
  "combinations ds = concat (map (vendorsByP ds) (array_from_set (map partNumber ds)))"
proof (cases "length ds = 0")
  case True
  then show ?thesis by (simp add: combinations_def array_from_set_def)
next
  case False
  then show ?thesis
    unfolding combinations_def vendorsByP_def [abs_def] countriesByPV_def [abs_def] Let_def
    by (simp only: if_False)
qed

lemma in_countriesByPV:
  "t \<in> set (countriesByPV ds p v) \<longleftrightarrow>
     partNumber t = p \<and> vendor t = v \<and> (\<exists>d \<in> set ds. triple_of d = t)"
  by (cases t) (auto simp: countriesByPV_def set_array_from_set triple_of_def)

lemma in_vendorsByP:
  "t \<in> set (vendorsByP ds p) \<longleftrightarrow> partNumber t = p \<and> (\<exists>d \<in> set ds. triple_of d = t)"
  by (cases t) (auto simp: vendorsByP_def in_countriesByPV set_array_from_set triple_of_def)

lemma set_combinations: "set (combinations ds) = triple_of ` set ds"
  by (auto simp: combinations_eq in_vendorsByP set_array_from_set triple_of_def)

lemma sorted_countriesByPV: "sorted_wrt (\<lambda>a b. rank ds a < rank ds b) (countriesByPV ds p v)"
  unfolding countriesByPV_def sorted_wrt_map
  by (rule sorted_wrt_mono_rel [OF _ sorted_array_from_set_map]) (simp add: rank_def)

lemma sorted_vendorsByP: "sorted_wrt (\<lambda>a b. rank ds a < rank ds b) (vendorsByP ds p)"
  unfolding vendorsByP_def
proof (rule sorted_wrt_concat_map [OF sorted_array_from_set_map])
  show "sorted_wrt (\<lambda>a b. rank ds a < rank ds b) (countriesByPV ds p v)" for v
    by (rule sorted_countriesByPV)
next
  fix v w a b
  assume "first_seen (\<lambda>d. vendor d = v) (filter (\<lambda>d. partNumber d = p) ds)
          < first_seen (\<lambda>d. vendor d = w) (filter (\<lambda>d. partNumber d = p) ds)"
    and "a \<in> set (countriesByPV ds p v)" and "b \<in> set (countriesByPV ds p w)"
  then show "rank ds a < rank ds b"
    by (simp add: in_countriesByPV rank_def)
qed

lemma sorted_combinations: "sorted_wrt (\<lambda>a b. rank ds a < rank ds b) (combinations ds)"
  unfolding combinations_eq
proof (rule sorted_wrt_concat_map [OF sorted_array_from_set_map])
  show "sorted_wrt (\<lambda>a b. rank ds a < rank ds b) (vendorsByP ds p)" for p
    by (rule sorted_vendorsByP)
next
  fix p q a b
  assume "first_seen (\<lambda>d. partNumber d = p) ds < first_seen (\<lambda>d. partNumber d = q) ds"
    and "a \<in> set (vendorsByP ds p)" and "b \<in> set (vendorsByP ds q)"
  then show "rank ds a < rank ds b"
    by (simp add: in_vendorsByP rank_def)
qed

text \<open>
  Claim C4. The enumeration emits exactly the triples of the records, each once, in the
  first-seen order of the part, then of the vendor among the records of the part, then of
  the country among the records of the part and vendor.
\<close>

theorem combinations_cooccurring:
  "set (combinations activeData) = triple_of ` set activeData
   \<and> distinct (combinations activeData)
   \<and> sorted_wrt (\<lambda>a b. rank activeData a < rank activeData b) (combinations activeData)"
proof -
  have "distinct (combinations activeData)"
    by (rule sorted_wrt_distinct [OF sorted_combinations]) simp
  then show ?thesis
    by (simp add: set_combinations sorted_combinations)
qed

text \<open>
  The instance of section 8 of the specification: three triples, and not (A, V2, US), whose
  part, vendor and country each occur.
\<close>

theorem combinations_cooccurring_witness:
  "combinations three_combinations
     = [\<lparr>partNumber = Some ''A'', vendor = Some ''V1'', country = Some ''US''\<rparr>,
        \<lparr>partNumber = Some ''A'', vendor = Some ''V2'', country = Some ''DE''\<rparr>,
        \<lparr>partNumber = Some ''B'', vendor = Some ''V1'', country = Some ''US''\<rparr>]
   \<and> \<lparr>partNumber = Some ''A'', vendor = Some ''V2'', country = Some ''US''\<rparr>
        \<notin> triple_of ` set three_combinations
   \<and> \<lparr>partNumber = Some ''A'', vendor = Some ''V2'', country = Some ''US''\<rparr>
        \<notin> set (combinations three_combinations)
   \<and> map (rank three_combinations) (combinations three_combinations) = [(0, 0, 0), (0, 1, 0), (2, 0, 0)]"
proof -
  have a: "combinations three_combinations
     = [\<lparr>partNumber = Some ''A'', vendor = Some ''V1'', country = Some ''US''\<rparr>,
        \<lparr>partNumber = Some ''A'', vendor = Some ''V2'', country = Some ''DE''\<rparr>,
        \<lparr>partNumber = Some ''B'', vendor = Some ''V1'', country = Some ''US''\<rparr>]"
    by code_simp
  have b: "\<lparr>partNumber = Some ''A'', vendor = Some ''V2'', country = Some ''US''\<rparr>
        \<notin> triple_of ` set three_combinations"
    by code_simp
  have c: "map (rank three_combinations) (combinations three_combinations) = [(0, 0, 0), (0, 1, 0), (2, 0, 0)]"
    by code_simp
  from combinations_cooccurring [of three_combinations] a b c show ?thesis by blast
qed

end
